theory Spec2Isabelle
  imports Complex_Main "HOL-Library.Multiset" "HOL-Library.List_Lexorder"
begin

section \<open>JavaScript values used by the ledger\<close>

text \<open>
  A JavaScript string is a sequence of UTF-16 code units; \<open>===\<close> compares the
  sequences and \<open><=\<close> orders them lexicographically by code unit, which is the
  order of HOL-Library.List_Lexorder on \<open>nat list\<close>.  ASCII literals are
  written \<open>str ''...''\<close>.
\<close>

type_synonym jsstring = "nat list"

definition str :: "string \<Rightarrow> jsstring" where
  "str s = map of_char s"

text \<open>
  A JavaScript number is modelled as an exact rational, the two infinities or NaN.
  The rounding of IEEE doubles is outside the model: it agrees with the program as
  long as every value is an integer of magnitude below \<open>2^53\<close>, which is what the
  ledger stores (amounts are rounded integers).
\<close>

datatype jsnum = Fin rat | PInf | NInf | NaN

fun jsadd :: "jsnum \<Rightarrow> jsnum \<Rightarrow> jsnum" where
  "jsadd (Fin a) (Fin b) = Fin (a + b)"
| "jsadd NaN _ = NaN"
| "jsadd _ NaN = NaN"
| "jsadd PInf NInf = NaN"
| "jsadd NInf PInf = NaN"
| "jsadd PInf _ = PInf"
| "jsadd _ PInf = PInf"
| "jsadd NInf _ = NInf"
| "jsadd _ NInf = NInf"

fun jsneg :: "jsnum \<Rightarrow> jsnum" where
  "jsneg (Fin a) = Fin (- a)"
| "jsneg PInf = NInf"
| "jsneg NInf = PInf"
| "jsneg NaN = NaN"

definition jssub :: "jsnum \<Rightarrow> jsnum \<Rightarrow> jsnum" where
  "jssub a b = jsadd a (jsneg b)"

definition isNaN :: "jsnum \<Rightarrow> bool" where
  "isNaN x = (x = NaN)"

text \<open>Truthiness of an optional string field: \<open>undefined\<close> and \<open>''\<close> are falsy.\<close>

definition truthy :: "jsstring option \<Rightarrow> bool" where
  "truthy v = (case v of None \<Rightarrow> False | Some s \<Rightarrow> s \<noteq> [])"

section \<open>Data model (types.ts)\<close>

datatype TransactionType = INCOME | EXPENSE | TRANSFER

datatype Frequency = DAILY | WEEKLY | MONTHLY | BI_MONTHLY_ODD | BI_MONTHLY_EVEN | YEARLY

datatype AccountType = CASH | BANK | CREDIT | E_WALLET | OTHER

record Account =
  acc_id :: jsstring
  acc_name :: jsstring
  acc_type :: AccountType
  initialBalance :: jsnum
  color :: jsstring

record Transaction =
  tx_id :: jsstring
  tx_date :: jsstring
  tx_amount :: jsnum
  tx_type :: TransactionType
  tx_category :: jsstring
  tx_description :: jsstring
  tx_location :: "jsstring option"
  tx_accountId :: jsstring
  tx_toAccountId :: "jsstring option"
  tx_receiptImage :: "jsstring option"
  tx_isRecurringInstance :: "bool option"

section \<open>Account balances (App.tsx, accountBalances)\<close>

text \<open>
  \<open>bals\<close> is the object built by \<open>accounts.reduce\<close>: a map from account id to
  number.  \<open>bals[k] += amt\<close> on a key that is not there reads \<open>undefined\<close>, and
  \<open>undefined + amt\<close> is NaN, which is then stored under \<open>k\<close>.  (Ids are generated
  strings; ids that name a member of \<open>Object.prototype\<close> are not modelled.)
\<close>

type_synonym bals = "jsstring \<rightharpoonup> jsnum"

definition init_bals :: "Account list \<Rightarrow> bals" where
  "init_bals accounts =
     foldl (\<lambda>acc account. acc(acc_id account \<mapsto> initialBalance account)) Map.empty accounts"

definition read_bal :: "bals \<Rightarrow> jsstring \<Rightarrow> jsnum" where
  "read_bal b k = (case b k of None \<Rightarrow> NaN | Some v \<Rightarrow> v)"

definition add_to :: "bals \<Rightarrow> jsstring \<Rightarrow> jsnum \<Rightarrow> bals" where
  "add_to b k amt = b(k \<mapsto> jsadd (read_bal b k) amt)"

definition sub_from :: "bals \<Rightarrow> jsstring \<Rightarrow> jsnum \<Rightarrow> bals" where
  "sub_from b k amt = b(k \<mapsto> jssub (read_bal b k) amt)"

text \<open>
  The body of \<open>transactions.forEach\<close>.  \<open>tx.amount\<close> has type \<open>number\<close>, so
  \<open>amt\<close> is \<open>tx.amount\<close> itself (the \<open>parseFloat\<close> branch is for values of
  another type).
\<close>

definition balance_step :: "bals \<Rightarrow> Transaction \<Rightarrow> bals" where
  "balance_step b tx =
     (let amt = tx_amount tx in
      if isNaN amt then b
      else if tx_type tx = INCOME then add_to b (tx_accountId tx) amt
      else if tx_type tx = EXPENSE then sub_from b (tx_accountId tx) amt
      else if tx_type tx = TRANSFER \<and> truthy (tx_toAccountId tx) then
        add_to (sub_from b (tx_accountId tx) amt) (the (tx_toAccountId tx)) amt
      else b)"

definition accountBalances :: "Account list \<Rightarrow> Transaction list \<Rightarrow> bals" where
  "accountBalances accounts transactions =
     foldl balance_step (init_bals accounts) transactions"




text \<open>Sample records for the concrete evaluations below.\<close>

definition sample_account :: "string \<Rightarrow> string \<Rightarrow> int \<Rightarrow> Account" where
  "sample_account i n b =
     \<lparr>acc_id = str i, acc_name = str n, acc_type = CASH, initialBalance = Fin (of_int b),
      color = str ''bg-orange-500''\<rparr>"

definition sample_tx ::
  "TransactionType \<Rightarrow> int \<Rightarrow> string \<Rightarrow> jsstring option \<Rightarrow> Transaction" where
  "sample_tx ty amt a to =
     \<lparr>tx_id = str ''t1'', tx_date = str ''2024-05-01'', tx_amount = Fin (of_int amt),
      tx_type = ty, tx_category = str ''cat_food'', tx_description = str ''lunch'',
      tx_location = None, tx_accountId = str a, tx_toAccountId = to,
      tx_receiptImage = None, tx_isRecurringInstance = None\<rparr>"

section \<open>The JavaScript Date operations used by the scheduler\<close>

text \<open>
  A calendar day of the proleptic Gregorian calendar.  \<open>month\<close> counts from 0, as
  \<open>getMonth\<close> does.
\<close>

record civil =
  year :: int
  month :: nat
  dom :: nat

definition isLeap :: "int \<Rightarrow> bool" where
  "isLeap y = (y mod 4 = 0 \<and> (y mod 100 \<noteq> 0 \<or> y mod 400 = 0))"

definition daysInMonth :: "int \<Rightarrow> nat \<Rightarrow> nat" where
  "daysInMonth y m =
     (if m = 1 then (if isLeap y then 29 else 28)
      else if m = 3 \<or> m = 5 \<or> m = 8 \<or> m = 10 then 30
      else 31)"

definition valid_civil :: "civil \<Rightarrow> bool" where
  "valid_civil c = (month c < 12 \<and> 1 \<le> dom c \<and> dom c \<le> daysInMonth (year c) (month c))"

text \<open>
  A time value is kept only within 100,000,000 days of the epoch (TimeClip): the
  days from -271821-04-20 to 275760-09-13.
\<close>

definition in_range :: "civil \<Rightarrow> bool" where
  "in_range c =
     ((- 271821 < year c \<or> year c = - 271821 \<and> (3 < month c \<or> month c = 3 \<and> 20 \<le> dom c)) \<and>
      (year c < 275760 \<or> year c = 275760 \<and> (month c < 8 \<or> month c = 8 \<and> dom c \<le> 13)))"

text \<open>
  MakeDay for a month number from 0 and a day of the month from 1: a month number
  of 12 or more carries into the year, and a day beyond the end of the month rolls
  over into the following months.
\<close>

function roll_days :: "int \<Rightarrow> nat \<Rightarrow> nat \<Rightarrow> civil" where
  "roll_days y m d =
     (if daysInMonth y m < d
      then (if m = 11 then roll_days (y + 1) 0 (d - daysInMonth y m)
            else roll_days y (m + 1) (d - daysInMonth y m))
      else \<lparr>year = y, month = m, dom = d\<rparr>)"
  by pat_completeness auto
termination
  by (relation "measure (\<lambda>(y, m, d). d)") (auto simp: daysInMonth_def)

declare roll_days.simps [simp del]

definition makeDay :: "int \<Rightarrow> nat \<Rightarrow> nat \<Rightarrow> civil" where
  "makeDay y m d = roll_days (y + int (m div 12)) (m mod 12) d"

definition next_day :: "civil \<Rightarrow> civil" where
  "next_day c = makeDay (year c) (month c) (dom c + 1)"

definition prev_day :: "civil \<Rightarrow> civil" where
  "prev_day c =
     (if 1 < dom c then c\<lparr>dom := dom c - 1\<rparr>
      else if 0 < month c
        then \<lparr>year = year c, month = month c - 1, dom = daysInMonth (year c) (month c - 1)\<rparr>
        else \<lparr>year = year c - 1, month = 11, dom = 31\<rparr>)"

text \<open>
  A Date object made from a date-only string holds midnight UTC of a calendar day,
  or is an Invalid Date (\<open>None\<close>).  The getters and setters of the scheduler work
  in local time.  Local time is UTC plus \<open>tz\<close> minutes, a fixed offset with
  \<open>-1440 < tz < 1440\<close> (no daylight-saving change): at midnight UTC the local
  calendar day is the same day when \<open>0 \<le> tz\<close>, and the day before when \<open>tz < 0\<close>.
  A setter keeps the local time of day, so the new time value is again midnight UTC:
  of the new local day when \<open>0 \<le> tz\<close>, of the day after it when \<open>tz < 0\<close>.
\<close>

type_synonym jsdate = "civil option"

definition localDay :: "int \<Rightarrow> jsdate \<Rightarrow> civil option" where
  "localDay tz d = map_option (\<lambda>c. if tz < 0 then prev_day c else c) d"

definition fromLocal :: "int \<Rightarrow> civil \<Rightarrow> jsdate" where
  "fromLocal tz l =
     (let c = (if tz < 0 then next_day l else l) in if in_range c then Some c else None)"

text \<open>The getters return NaN (\<open>None\<close>) on an Invalid Date.\<close>

definition getDate :: "int \<Rightarrow> jsdate \<Rightarrow> nat option" where
  "getDate tz d = map_option dom (localDay tz d)"

definition getMonth :: "int \<Rightarrow> jsdate \<Rightarrow> nat option" where
  "getMonth tz d = map_option month (localDay tz d)"

definition getFullYear :: "int \<Rightarrow> jsdate \<Rightarrow> int option" where
  "getFullYear tz d = map_option year (localDay tz d)"

text \<open>
  The setters, for the arguments the scheduler passes: the value of the matching
  getter of the same Date plus a positive constant (NaN on an Invalid Date, which
  stays invalid).
\<close>

definition setDate :: "int \<Rightarrow> jsdate \<Rightarrow> nat option \<Rightarrow> jsdate" where
  "setDate tz d v =
     (case (localDay tz d, v) of
        (Some l, Some n) \<Rightarrow> fromLocal tz (makeDay (year l) (month l) n)
      | _ \<Rightarrow> None)"

definition setMonth :: "int \<Rightarrow> jsdate \<Rightarrow> nat option \<Rightarrow> jsdate" where
  "setMonth tz d v =
     (case (localDay tz d, v) of
        (Some l, Some m) \<Rightarrow> fromLocal tz (makeDay (year l) m (dom l))
      | _ \<Rightarrow> None)"

definition setFullYear :: "int \<Rightarrow> jsdate \<Rightarrow> int option \<Rightarrow> jsdate" where
  "setFullYear tz d v =
     (case (localDay tz d, v) of
        (Some l, Some y) \<Rightarrow> fromLocal tz (makeDay y (month l) (dom l))
      | _ \<Rightarrow> None)"

subsection \<open>Date strings\<close>

definition is_digit :: "nat \<Rightarrow> bool" where
  "is_digit c = (48 \<le> c \<and> c \<le> 57)"

definition digit_val :: "nat \<Rightarrow> nat" where
  "digit_val c = c - 48"

definition digits_val :: "jsstring \<Rightarrow> nat" where
  "digits_val s = foldl (\<lambda>acc c. 10 * acc + digit_val c) 0 s"

definition pad2 :: "nat \<Rightarrow> jsstring" where
  "pad2 n = [48 + n div 10 mod 10, 48 + n mod 10]"

definition pad4 :: "nat \<Rightarrow> jsstring" where
  "pad4 n = [48 + n div 1000 mod 10, 48 + n div 100 mod 10, 48 + n div 10 mod 10, 48 + n mod 10]"

definition pad6 :: "nat \<Rightarrow> jsstring" where
  "pad6 n = [48 + n div 100000 mod 10, 48 + n div 10000 mod 10] @ pad4 n"

text \<open>
  \<open>toISOString().split('T')[0]\<close>: the UTC day as \<open>YYYY-MM-DD\<close>, the year with a
  sign and six digits outside 0..9999.  On an Invalid Date \<open>toISOString\<close> throws a
  RangeError.
\<close>

datatype error = RangeError

definition isoYear :: "int \<Rightarrow> jsstring" where
  "isoYear y =
     (if 0 \<le> y \<and> y \<le> 9999 then pad4 (nat y)
      else (if y < 0 then str ''-'' else str ''+'') @ pad6 (nat \<bar>y\<bar>))"

definition isoDate :: "civil \<Rightarrow> jsstring" where
  "isoDate c = isoYear (year c) @ str ''-'' @ pad2 (month c + 1) @ str ''-'' @ pad2 (dom c)"

definition toISOString_date :: "jsdate \<Rightarrow> error + jsstring" where
  "toISOString_date d = (case d of None \<Rightarrow> Inl RangeError | Some c \<Rightarrow> Inr (isoDate c))"

text \<open>
  \<open>new Date(s)\<close> for the date-only forms \<open>YYYY-MM-DD\<close> and \<open>+YYYYYY-MM-DD\<close> /
  \<open>-YYYYYY-MM-DD\<close> of a day that exists, read as midnight UTC.  What
  \<open>new Date\<close> makes of any other string is left to the browser by the language
  standard; the model calls it an Invalid Date, and every statement below that
  parses a string is about a string of these forms.
\<close>

definition civil_of_fields :: "int \<Rightarrow> jsstring \<Rightarrow> jsstring \<Rightarrow> jsdate" where
  "civil_of_fields y ms ds =
     (if list_all is_digit (ms @ ds) \<and> 1 \<le> digits_val ms
      then (let c = \<lparr>year = y, month = digits_val ms - 1, dom = digits_val ds\<rparr>
            in if valid_civil c \<and> in_range c then Some c else None)
      else None)"

definition newDate :: "jsstring \<Rightarrow> jsdate" where
  "newDate s =
     (if length s = 10 \<and> s ! 4 = 45 \<and> s ! 7 = 45 \<and> list_all is_digit (take 4 s)
      then civil_of_fields (int (digits_val (take 4 s))) (take 2 (drop 5 s)) (drop 8 s)
      else if length s = 13 \<and> (s ! 0 = 43 \<or> s ! 0 = 45) \<and> s ! 7 = 45 \<and> s ! 10 = 45 \<and>
              list_all is_digit (take 6 (drop 1 s)) \<and>
              \<not> (s ! 0 = 45 \<and> digits_val (take 6 (drop 1 s)) = 0)
      then civil_of_fields
             (if s ! 0 = 45 then - int (digits_val (take 6 (drop 1 s)))
              else int (digits_val (take 6 (drop 1 s))))
             (take 2 (drop 8 s)) (drop 11 s)
      else None)"

section \<open>Recurring transactions (App.tsx, getNextDate and the catch-up effect)\<close>

record RecurringTransaction =
  rt_id :: jsstring
  rt_frequency :: Frequency
  rt_startDate :: jsstring
  rt_nextDueDate :: jsstring
  rt_endDate :: "jsstring option"
  rt_lastGenerated :: "jsstring option"
  rt_amount :: jsnum
  rt_type :: TransactionType
  rt_category :: jsstring
  rt_description :: jsstring
  rt_location :: "jsstring option"
  rt_accountId :: jsstring
  rt_toAccountId :: "jsstring option"

text \<open>
  The \<open>while (true)\<close> loop of \<open>getNextDate\<close>.  \<open>currentMonth\<close> is NaN on an
  Invalid Date; then \<open>isOdd\<close> (\<open>NaN % 2 !== 0\<close>) is true and \<open>isEven\<close> is false.
  The loop need not end, so its model is partial: \<open>None\<close> is a run that does not
  return.
\<close>

definition isOdd :: "nat option \<Rightarrow> bool" where
  "isOdd currentMonth = (case currentMonth of None \<Rightarrow> True | Some m \<Rightarrow> m mod 2 \<noteq> 0)"

definition isEven :: "nat option \<Rightarrow> bool" where
  "isEven currentMonth = (case currentMonth of None \<Rightarrow> False | Some m \<Rightarrow> m mod 2 = 0)"

partial_function (option) biMonthlyLoop :: "int \<Rightarrow> Frequency \<Rightarrow> jsdate \<Rightarrow> jsdate option" where
  "biMonthlyLoop tz freq d =
     (if (freq = BI_MONTHLY_ODD \<and> isOdd (map_option Suc (getMonth tz d))) \<or>
         (freq = BI_MONTHLY_EVEN \<and> isEven (map_option Suc (getMonth tz d)))
      then Some d
      else biMonthlyLoop tz freq (setMonth tz d (map_option Suc (getMonth tz d))))"

declare biMonthlyLoop.simps [code]

text \<open>
  \<open>getNextDate\<close>: \<open>None\<close> when the call does not return, \<open>Some (Inl RangeError)\<close>
  when \<open>toISOString\<close> throws, \<open>Some (Inr s)\<close> when it returns the string \<open>s\<close>.
\<close>

definition getNextDate :: "int \<Rightarrow> jsstring \<Rightarrow> Frequency \<Rightarrow> (error + jsstring) option" where
  "getNextDate tz dateStr freq =
     (let d = newDate dateStr in
      map_option toISOString_date
        (if freq = DAILY then Some (setDate tz d (map_option (\<lambda>n. n + 1) (getDate tz d)))
         else if freq = WEEKLY then Some (setDate tz d (map_option (\<lambda>n. n + 7) (getDate tz d)))
         else if freq = MONTHLY then Some (setMonth tz d (map_option Suc (getMonth tz d)))
         else if freq = YEARLY
           then Some (setFullYear tz d (map_option (\<lambda>y. y + 1) (getFullYear tz d)))
         else biMonthlyLoop tz freq (setMonth tz d (map_option Suc (getMonth tz d)))))"

text \<open>
  The body of \<open>recurringTransactions.map\<close> in the catch-up effect: the
  \<open>while\<close> loop over one template.  \<open>today\<close> is
  \<open>new Date().toISOString().split('T')[0]\<close>; \<open>freshId n\<close> is the id drawn for
  the transaction pushed when \<open>newTransactions\<close> holds \<open>n\<close> entries
  (\<open>Date.now()\<close> and \<open>Math.random()\<close> are the environment's).  The string
  \<open>' (\<dots>)'\<close> appended to the description is a space, \<open>(\<close>, the two
  characters U+81EA U+52D5, and \<open>)\<close>.
\<close>

definition auto_suffix :: jsstring where
  "auto_suffix = [32, 40, 0x81EA, 0x52D5, 41]"

definition newTx_of :: "jsstring \<Rightarrow> RecurringTransaction \<Rightarrow> Transaction" where
  "newTx_of new_id tempRt =
     \<lparr>tx_id = new_id,
      tx_date = rt_nextDueDate tempRt,
      tx_amount = rt_amount tempRt,
      tx_type = rt_type tempRt,
      tx_category = rt_category tempRt,
      tx_description = rt_description tempRt @ auto_suffix,
      tx_location = rt_location tempRt,
      tx_accountId = rt_accountId tempRt,
      tx_toAccountId = rt_toAccountId tempRt,
      tx_receiptImage = None,
      tx_isRecurringInstance = Some True\<rparr>"

function catchUpLoop ::
  "int \<Rightarrow> jsstring \<Rightarrow> (nat \<Rightarrow> jsstring) \<Rightarrow> RecurringTransaction \<Rightarrow> Transaction list \<Rightarrow> bool \<Rightarrow> nat \<Rightarrow>
     (error + RecurringTransaction \<times> Transaction list \<times> bool) option" where
  "catchUpLoop tz today freshId tempRt newTransactions generated loopCount =
     (if rt_nextDueDate tempRt \<le> today \<and> loopCount < 12 then
        if truthy (rt_endDate tempRt) \<and> rt_nextDueDate tempRt > the (rt_endDate tempRt)
        then Some (Inr (tempRt, newTransactions, generated))
        else
          (case getNextDate tz (rt_nextDueDate tempRt) (rt_frequency tempRt) of
             None \<Rightarrow> None
           | Some (Inl e) \<Rightarrow> Some (Inl e)
           | Some (Inr nextDue) \<Rightarrow>
               catchUpLoop tz today freshId
                 (tempRt\<lparr>rt_lastGenerated := Some (rt_nextDueDate tempRt),
                         rt_nextDueDate := nextDue\<rparr>)
                 (newTransactions @ [newTx_of (freshId (length newTransactions)) tempRt])
                 True (loopCount + 1))
      else Some (Inr (tempRt, newTransactions, generated)))"
  by pat_completeness auto
termination
  by (relation "measure (\<lambda>(tz, today, freshId, tempRt, newTransactions, generated, loopCount).
        12 - loopCount)") auto

declare catchUpLoop.simps [simp del]

text \<open>
  One template through the loop, from an empty \<open>newTransactions\<close>: the template
  as updated and the instances emitted for it.
\<close>

definition advance ::
  "int \<Rightarrow> jsstring \<Rightarrow> (nat \<Rightarrow> jsstring) \<Rightarrow> RecurringTransaction \<Rightarrow>
     (error + RecurringTransaction \<times> Transaction list) option" where
  "advance tz today freshId rt =
     (case catchUpLoop tz today freshId rt [] False 0 of
        None \<Rightarrow> None
      | Some (Inl e) \<Rightarrow> Some (Inl e)
      | Some (Inr (tempRt, newTransactions, generated)) \<Rightarrow> Some (Inr (tempRt, newTransactions)))"

text \<open>
  The whole effect: every template in turn, all pushing onto the one
  \<open>newTransactions\<close>; the state is replaced only when some template generated.
\<close>

fun catchUpAll ::
  "int \<Rightarrow> jsstring \<Rightarrow> (nat \<Rightarrow> jsstring) \<Rightarrow> RecurringTransaction list \<Rightarrow> Transaction list \<Rightarrow> bool \<Rightarrow>
     (error + RecurringTransaction list \<times> Transaction list \<times> bool) option" where
  "catchUpAll tz today freshId [] newTransactions hasChanges =
     Some (Inr ([], newTransactions, hasChanges))"
| "catchUpAll tz today freshId (rt # rts) newTransactions hasChanges =
     (case catchUpLoop tz today freshId rt newTransactions False 0 of
        None \<Rightarrow> None
      | Some (Inl e) \<Rightarrow> Some (Inl e)
      | Some (Inr (tempRt, newTransactions', generated)) \<Rightarrow>
          (case catchUpAll tz today freshId rts newTransactions' (hasChanges \<or> generated) of
             None \<Rightarrow> None
           | Some (Inl e) \<Rightarrow> Some (Inl e)
           | Some (Inr (updated, newTransactions'', hasChanges')) \<Rightarrow>
               Some (Inr (tempRt # updated, newTransactions'', hasChanges'))))"

record AppState =
  transactions :: "Transaction list"
  recurringTransactions :: "RecurringTransaction list"

definition recurringEffect ::
  "int \<Rightarrow> jsstring \<Rightarrow> (nat \<Rightarrow> jsstring) \<Rightarrow> AppState \<Rightarrow> (error + AppState) option" where
  "recurringEffect tz today freshId st =
     (case catchUpAll tz today freshId (recurringTransactions st) [] False of
        None \<Rightarrow> None
      | Some (Inl e) \<Rightarrow> Some (Inl e)
      | Some (Inr (updatedRecurrings, newTransactions, hasChanges)) \<Rightarrow>
          Some (Inr (if hasChanges
                     then st\<lparr>transactions := newTransactions @ transactions st,
                             recurringTransactions := updatedRecurrings\<rparr>
                     else st)))"

definition sample_rt ::
  "Frequency \<Rightarrow> string \<Rightarrow> jsstring option \<Rightarrow> RecurringTransaction" where
  "sample_rt freq due e =
     \<lparr>rt_id = str ''rec_1'', rt_frequency = freq, rt_startDate = str due,
      rt_nextDueDate = str due, rt_endDate = e, rt_lastGenerated = None,
      rt_amount = Fin 1200, rt_type = EXPENSE, rt_category = str ''cat_bills'',
      rt_description = str ''rent'', rt_location = None, rt_accountId = str ''acc_1'',
      rt_toAccountId = None\<rparr>"

definition sample_ids :: "nat \<Rightarrow> jsstring" where
  "sample_ids n = str ''auto_'' @ pad2 n"

section \<open>CSV export and import (constants.ts; App.tsx, handleExportCSV and handleImportCSV)\<close>

subsection \<open>Constants\<close>

text \<open>
  The category tables, as pairs of id and name (the icon and type of a category
  are not used by the export or the import).  The names are the code units of the
  Chinese labels of constants.ts.
\<close>

definition EXPENSE_CATEGORIES :: "(jsstring \<times> jsstring) list" where
  "EXPENSE_CATEGORIES =
     [(str ''cat_food'', [0x9910, 0x98F2]),
      (str ''cat_transport'', [0x4EA4, 0x901A]),
      (str ''cat_shopping'', [0x8CFC, 0x7269]),
      (str ''cat_bills'', [0x5E33, 0x55AE]),
      (str ''cat_entertainment'', [0x5A1B, 0x6A02]),
      (str ''cat_health'', [0x91AB, 0x7642, 0x4FDD, 0x5065]),
      (str ''cat_education'', [0x6559, 0x80B2]),
      (str ''cat_travel'', [0x65C5, 0x884C]),
      (str ''cat_other_exp'', [0x5176, 0x4ED6])]"

definition INCOME_CATEGORIES :: "(jsstring \<times> jsstring) list" where
  "INCOME_CATEGORIES =
     [(str ''cat_salary'', [0x85AA, 0x8CC7]),
      (str ''cat_investment'', [0x6295, 0x8CC7]),
      (str ''cat_gift'', [0x79AE, 0x91D1]),
      (str ''cat_other_inc'', [0x5176, 0x4ED6])]"

definition TRANSFER_CATEGORY :: "jsstring \<times> jsstring" where
  "TRANSFER_CATEGORY = (str ''cat_transfer'', [0x8F49, 0x5E33])"

definition allCats :: "(jsstring \<times> jsstring) list" where
  "allCats = EXPENSE_CATEGORIES @ INCOME_CATEGORIES @ [TRANSFER_CATEGORY]"

definition ACCOUNT_COLORS :: "jsstring list" where
  "ACCOUNT_COLORS =
     [str ''bg-orange-500'', str ''bg-blue-500'', str ''bg-purple-500'',
      str ''bg-green-500'', str ''bg-red-500'', str ''bg-teal-500'',
      str ''bg-indigo-500'', str ''bg-pink-500'', str ''bg-gray-600'']"

text \<open>The column titles and the three type labels.\<close>

definition headers :: "jsstring list" where
  "headers =
     [[0x65E5, 0x671F], [0x985E, 0x578B], [0x91D1, 0x984D], [0x5206, 0x985E],
      [0x5099, 0x8A3B], [0x5730, 0x9EDE], [0x5E33, 0x6236], [0x8F49, 0x5165, 0x5E33, 0x6236]]"

definition label_income :: jsstring where "label_income = [0x6536, 0x5165]"
definition label_expense :: jsstring where "label_expense = [0x652F, 0x51FA]"
definition label_transfer :: jsstring where "label_transfer = [0x8F49, 0x5E33]"
definition label_transfer_in :: jsstring where "label_transfer_in = [0x8F49, 0x5165]"
definition label_transfer_out :: jsstring where "label_transfer_out = [0x8F49, 0x51FA]"

subsection \<open>String operations\<close>

text \<open>\<open>s.split(sep)\<close> for a one-character separator, and \<open>xs.join(sep)\<close>.\<close>

fun split_on :: "nat \<Rightarrow> jsstring \<Rightarrow> jsstring list" where
  "split_on sep [] = [[]]"
| "split_on sep (c # s) =
     (if c = sep then [] # split_on sep s
      else (case split_on sep s of [] \<Rightarrow> [[c]] | l # ls \<Rightarrow> (c # l) # ls))"

fun join :: "jsstring \<Rightarrow> jsstring list \<Rightarrow> jsstring" where
  "join sep [] = []"
| "join sep [x] = x"
| "join sep (x # y # zs) = x @ sep @ join sep (y # zs)"

text \<open>\<open>s.includes(sub)\<close>.\<close>

fun starts_with :: "jsstring \<Rightarrow> jsstring \<Rightarrow> bool" where
  "starts_with s [] = True"
| "starts_with [] (c # sub) = False"
| "starts_with (d # s) (c # sub) = (d = c \<and> starts_with s sub)"

fun js_includes :: "jsstring \<Rightarrow> jsstring \<Rightarrow> bool" where
  "js_includes [] sub = (sub = [])"
| "js_includes (c # s) sub = (starts_with (c # s) sub \<or> js_includes s sub)"

text \<open>
  \<open>s.trim()\<close> removes white space and line terminators from both ends.
\<close>

definition is_space :: "nat \<Rightarrow> bool" where
  "is_space c =
     (c = 0x09 \<or> c = 0x0A \<or> c = 0x0B \<or> c = 0x0C \<or> c = 0x0D \<or> c = 0x20 \<or> c = 0xA0 \<or>
      c = 0x1680 \<or> (0x2000 \<le> c \<and> c \<le> 0x200A) \<or> c = 0x2028 \<or> c = 0x2029 \<or> c = 0x202F \<or>
      c = 0x205F \<or> c = 0x3000 \<or> c = 0xFEFF)"

definition trim :: "jsstring \<Rightarrow> jsstring" where
  "trim s = rev (dropWhile is_space (rev (dropWhile is_space s)))"

text \<open>
  The quoting of the export, \<open>replace(/"/g, '""')\<close> between two quotes, and its
  undoing by the import: \<open>replace(/^"|"$/g, '')\<close> and then
  \<open>replace(/""/g, '"')\<close>.  The code unit of \<open>"\<close> is 34, of the comma 44.
\<close>

definition escape_quotes :: "jsstring \<Rightarrow> jsstring" where
  "escape_quotes s = concat (map (\<lambda>c. if c = 34 then [34, 34] else [c]) s)"

definition quoted :: "jsstring \<Rightarrow> jsstring" where
  "quoted v = [34] @ escape_quotes v @ [34]"

definition remove_quotes :: "jsstring \<Rightarrow> jsstring" where
  "remove_quotes s = filter (\<lambda>c. c \<noteq> 34) s"

definition strip_quotes :: "jsstring \<Rightarrow> jsstring" where
  "strip_quotes s =
     (let s1 = (case s of [] \<Rightarrow> [] | c # r \<Rightarrow> if c = 34 then r else s)
      in if s1 \<noteq> [] \<and> last s1 = 34 then butlast s1 else s1)"

fun unescape_quotes :: "jsstring \<Rightarrow> jsstring" where
  "unescape_quotes (c # d # s) =
     (if c = 34 \<and> d = 34 then 34 # unescape_quotes s else c # unescape_quotes (d # s))"
| "unescape_quotes s = s"

text \<open>
  \<open>line.split(/,(?=(?:(?:[^"]*"){2})*[^"]*$)/)\<close>: the line is cut at every comma
  that is followed, up to the end of the line, by an even number of quotes.
\<close>

definition count_quotes :: "jsstring \<Rightarrow> nat" where
  "count_quotes s = length (filter (\<lambda>c. c = 34) s)"

fun csv_split :: "jsstring \<Rightarrow> jsstring list" where
  "csv_split [] = [[]]"
| "csv_split (c # s) =
     (if c = 44 \<and> even (count_quotes s) then [] # csv_split s
      else (case csv_split s of [] \<Rightarrow> [[c]] | l # ls \<Rightarrow> (c # l) # ls))"

definition parse_row :: "jsstring \<Rightarrow> jsstring list" where
  "parse_row line = map (\<lambda>v. unescape_quotes (strip_quotes (trim v))) (csv_split line)"

text \<open>\<open>row[k]\<close>: \<open>undefined\<close> (\<open>None\<close>) beyond the end of the row.\<close>

definition cell :: "jsstring list \<Rightarrow> nat \<Rightarrow> jsstring option" where
  "cell row k = (if k < length row then Some (row ! k) else None)"

subsection \<open>Numbers as text\<close>

text \<open>
  \<open>String(n)\<close> for an integer \<open>n\<close> (of magnitude below \<open>10^21\<close>, where
  JavaScript prints all the digits), and \<open>String(Math.round(x))\<close>.
\<close>

function show_nat :: "nat \<Rightarrow> jsstring" where
  "show_nat n = (if n < 10 then [48 + n] else show_nat (n div 10) @ [48 + n mod 10])"
  by pat_completeness auto
termination
  by (relation "measure id") auto

declare show_nat.simps [simp del]

definition show_int :: "int \<Rightarrow> jsstring" where
  "show_int i = (if i < 0 then 45 # show_nat (nat (- i)) else show_nat (nat i))"

definition string_of_rounded :: "jsnum \<Rightarrow> jsstring" where
  "string_of_rounded x =
     (case x of
        Fin q \<Rightarrow> show_int \<lfloor>q + 1 / 2\<rfloor>
      | PInf \<Rightarrow> str ''Infinity''
      | NInf \<Rightarrow> str ''-Infinity''
      | NaN \<Rightarrow> str ''NaN'')"

text \<open>
  \<open>parseFloat(s)\<close>: leading white space is skipped, then the longest prefix that
  is a decimal literal is read (a sign, \<open>Infinity\<close> or digits with an optional
  fraction and exponent); with no such prefix the result is NaN.  The value is
  exact.
\<close>

definition exponent_of :: "jsstring \<Rightarrow> int" where
  "exponent_of r =
     (case r of
        [] \<Rightarrow> 0
      | e # r1 \<Rightarrow>
          if e = 101 \<or> e = 69 then
            (let sgn = (case r1 of [] \<Rightarrow> 1 | c # _ \<Rightarrow> if c = 45 then - 1 else 1);
                 r2 = (case r1 of [] \<Rightarrow> [] | c # r' \<Rightarrow> if c = 45 \<or> c = 43 then r' else r1);
                 ds = takeWhile is_digit r2
             in if ds = [] then 0 else sgn * int (digits_val ds))
          else 0)"

definition scale10 :: "rat \<Rightarrow> int \<Rightarrow> rat" where
  "scale10 m e = (if 0 \<le> e then m * 10 ^ nat e else m / 10 ^ nat (- e))"

definition parseFloat :: "jsstring \<Rightarrow> jsnum" where
  "parseFloat s =
     (let t = dropWhile is_space s;
          neg = (case t of [] \<Rightarrow> False | c # _ \<Rightarrow> c = 45);
          u = (case t of [] \<Rightarrow> [] | c # r \<Rightarrow> if c = 45 \<or> c = 43 then r else t)
      in if starts_with u (str ''Infinity'') then (if neg then NInf else PInf)
         else
           (let ip = takeWhile is_digit u;
                r1 = dropWhile is_digit u;
                fp = (case r1 of [] \<Rightarrow> [] | c # r \<Rightarrow> if c = 46 then takeWhile is_digit r else []);
                r2 = (case r1 of [] \<Rightarrow> [] | c # r \<Rightarrow> if c = 46 then dropWhile is_digit r else r1)
            in if ip = [] \<and> fp = [] then NaN
               else
                 (let mant = of_nat (digits_val ip) + of_nat (digits_val fp) / 10 ^ length fp;
                      v = scale10 mant (exponent_of r2)
                  in Fin (if neg then - v else v))))"

subsection \<open>Export\<close>

definition typeLabel :: "TransactionType \<Rightarrow> jsstring" where
  "typeLabel ty =
     (if ty = INCOME then label_income else if ty = EXPENSE then label_expense else label_transfer)"

text \<open>\<open>allCats.find(c => c.id === id)?.name || id\<close>.\<close>

definition category_label :: "jsstring \<Rightarrow> jsstring" where
  "category_label cid =
     (case find (\<lambda>c. fst c = cid) allCats of
        None \<Rightarrow> cid
      | Some c \<Rightarrow> if snd c = [] then cid else snd c)"

text \<open>\<open>accounts.find(a => a.id === id)?.name || ''\<close>.\<close>

definition account_name :: "Account list \<Rightarrow> jsstring \<Rightarrow> jsstring" where
  "account_name accounts aid =
     (case find (\<lambda>a. acc_id a = aid) accounts of None \<Rightarrow> [] | Some a \<Rightarrow> acc_name a)"

definition export_fields :: "Account list \<Rightarrow> Transaction \<Rightarrow> jsstring list" where
  "export_fields accounts tx =
     [tx_date tx,
      typeLabel (tx_type tx),
      string_of_rounded (tx_amount tx),
      category_label (tx_category tx),
      tx_description tx,
      (case tx_location tx of None \<Rightarrow> [] | Some l \<Rightarrow> l),
      account_name accounts (tx_accountId tx),
      (if truthy (tx_toAccountId tx) then account_name accounts (the (tx_toAccountId tx)) else [])]"

definition export_row :: "Account list \<Rightarrow> Transaction \<Rightarrow> jsstring" where
  "export_row accounts tx = join [44] (map quoted (export_fields accounts tx))"

text \<open>
  The text of the exported file: a byte-order mark, the header line and one line
  per transaction of \<open>sortedTransactions\<close>, joined by line feeds.
\<close>

definition exportCSV :: "Account list \<Rightarrow> Transaction list \<Rightarrow> jsstring" where
  "exportCSV accounts sortedTransactions =
     [0xFEFF] @ join [10] (join [44] headers # map (export_row accounts) sortedTransactions)"

subsection \<open>Import\<close>

text \<open>
  The objects the import pushes onto \<open>newTransactions\<close>.  They are given the
  type Transaction, but \<open>description\<close>, \<open>location\<close> and \<open>accountId\<close> are
  \<open>undefined\<close> (\<open>None\<close>) when the row has no such column or no account exists.
\<close>

record ImportedTx =
  itx_id :: jsstring
  itx_date :: jsstring
  itx_amount :: jsnum
  itx_type :: TransactionType
  itx_category :: jsstring
  itx_description :: "jsstring option"
  itx_location :: "jsstring option"
  itx_accountId :: "jsstring option"
  itx_toAccountId :: "jsstring option"

text \<open>
  \<open>getOrCreateAccountId\<close> works on the growing list \<open>updatedAccounts\<close>; the
  model returns the id and the list.  \<open>newAccId n\<close> is the id drawn
  (\<open>Date.now()\<close>, \<open>Math.random()\<close>) for an account created when the list
  holds \<open>n\<close> accounts.
\<close>

definition getOrCreateAccountId ::
  "(nat \<Rightarrow> jsstring) \<Rightarrow> Account list \<Rightarrow> jsstring option \<Rightarrow> jsstring \<times> Account list" where
  "getOrCreateAccountId newAccId updatedAccounts name =
     (if \<not> truthy name then ([], updatedAccounts)
      else
        (case find (\<lambda>a. acc_name a = the name) updatedAccounts of
           Some existing \<Rightarrow> (acc_id existing, updatedAccounts)
         | None \<Rightarrow>
             (let newId = newAccId (length updatedAccounts)
              in (newId,
                  updatedAccounts @
                    [\<lparr>acc_id = newId, acc_name = the name, acc_type = CASH,
                      initialBalance = Fin 0,
                      color = ACCOUNT_COLORS ! (length updatedAccounts mod length ACCOUNT_COLORS)\<rparr>]))))"

definition getCategoryId :: "jsstring option \<Rightarrow> TransactionType \<Rightarrow> jsstring" where
  "getCategoryId name ty =
     (case find (\<lambda>c. Some (snd c) = name) allCats of
        Some found \<Rightarrow> fst found
      | None \<Rightarrow>
          if ty = INCOME then str ''cat_other_inc''
          else if ty = TRANSFER then str ''cat_transfer''
          else str ''cat_other_exp'')"

text \<open>
  \<open>normalizeDate\<close>: the separators \<open>_\<close>, \<open>/\<close> and \<open>.\<close> become \<open>-\<close>, the
  string is parsed, and the local year, month and day are printed; a string that
  does not parse is returned as it is.
\<close>

definition padStart2 :: "jsstring \<Rightarrow> jsstring" where
  "padStart2 s = (if length s < 2 then replicate (2 - length s) 48 @ s else s)"

definition normalizeDate :: "int \<Rightarrow> jsstring \<Rightarrow> jsstring" where
  "normalizeDate tz dateStr =
     (let dateObj = newDate (map (\<lambda>c. if c = 95 \<or> c = 47 \<or> c = 46 then 45 else c) dateStr)
      in case localDay tz dateObj of
           None \<Rightarrow> dateStr
         | Some l \<Rightarrow>
             show_int (year l) @ [45] @ padStart2 (show_nat (month l + 1)) @ [45] @
             padStart2 (show_nat (dom l)))"

record ImportState =
  updatedAccounts :: "Account list"
  newTransactions :: "ImportedTx list"
  importedCount :: nat

text \<open>
  The body of the \<open>for\<close> loop for line \<open>i\<close>.  \<open>accounts\<close> is the account
  list of the application state, which the fallback \<open>accounts[0]?.id\<close> reads;
  \<open>newTxId i\<close> is the id drawn for the transaction of line \<open>i\<close>.
\<close>

definition import_line ::
  "int \<Rightarrow> (nat \<Rightarrow> jsstring) \<Rightarrow> (nat \<Rightarrow> jsstring) \<Rightarrow> Account list \<Rightarrow>
     ImportState \<Rightarrow> nat \<times> jsstring \<Rightarrow> ImportState" where
  "import_line tz newTxId newAccId accounts st il =
     (let i = fst il; line = trim (snd il) in
      if line = [] then st
      else
        (let row = parse_row line in
         if length row < 3 then st
         else
           (let date = normalizeDate tz (row ! 0);
                typeRaw = row ! 1;
                amount = parseFloat (row ! 2);
                catName = cell row 3;
                desc = cell row 4;
                loc = cell row 5;
                accName = cell row 6;
                toAccName = cell row 7
            in if isNaN amount \<or> date = [] then st
               else
                 (let type = (if typeRaw = label_income then INCOME
                              else if typeRaw = label_transfer \<or> typeRaw = label_transfer_in \<or>
                                      typeRaw = label_transfer_out then TRANSFER
                              else EXPENSE);
                      r1 = getOrCreateAccountId newAccId (updatedAccounts st) accName;
                      accId = fst r1;
                      r2 = (if type = TRANSFER \<and> truthy toAccName
                            then (let r = getOrCreateAccountId newAccId (snd r1) toAccName
                                  in (Some (fst r), snd r))
                            else (None, snd r1));
                      toAccId = fst r2
                  in st\<lparr>updatedAccounts := snd r2,
                         newTransactions := newTransactions st @
                           [\<lparr>itx_id = newTxId i,
                             itx_date = date,
                             itx_amount = amount,
                             itx_type = type,
                             itx_category = getCategoryId catName type,
                             itx_description = desc,
                             itx_location = loc,
                             itx_accountId =
                               (if accId \<noteq> [] then Some accId
                                else (case accounts of [] \<Rightarrow> None | a # _ \<Rightarrow> Some (acc_id a))),
                             itx_toAccountId = toAccId\<rparr>],
                         importedCount := importedCount st + 1\<rparr>))))"

text \<open>
  What \<open>handleImportCSV\<close> does with the text of the file: nothing for an empty
  text, an alert for a header without the date and amount titles, an alert when
  no row was imported, and otherwise the new account list and the transactions to
  append.
\<close>

datatype import_result =
  Ignored
| FormatError
| NoValidData
| Imported "Account list" "ImportedTx list" nat

definition strip_bom :: "jsstring \<Rightarrow> jsstring" where
  "strip_bom l = (case l of [] \<Rightarrow> [] | c # r \<Rightarrow> if c = 0xFEFF then r else l)"

definition import_lines ::
  "int \<Rightarrow> (nat \<Rightarrow> jsstring) \<Rightarrow> (nat \<Rightarrow> jsstring) \<Rightarrow> Account list \<Rightarrow> jsstring list \<Rightarrow> ImportState" where
  "import_lines tz newTxId newAccId accounts lines =
     foldl (import_line tz newTxId newAccId accounts)
       \<lparr>updatedAccounts = accounts, newTransactions = [], importedCount = 0\<rparr>
       (zip [1..<length lines] (tl lines))"

definition handleImportCSV ::
  "int \<Rightarrow> (nat \<Rightarrow> jsstring) \<Rightarrow> (nat \<Rightarrow> jsstring) \<Rightarrow> Account list \<Rightarrow> jsstring \<Rightarrow> import_result" where
  "handleImportCSV tz newTxId newAccId accounts content =
     (if content = [] then Ignored
      else
        (let lines = split_on 10 content;
             firstLine = remove_quotes (strip_bom (hd lines))
         in if \<not> js_includes firstLine [0x65E5, 0x671F] \<or> \<not> js_includes firstLine [0x91D1, 0x984D]
            then FormatError
            else
              (let st = import_lines tz newTxId newAccId accounts lines
               in if 0 < importedCount st
                  then Imported (updatedAccounts st) (newTransactions st) (importedCount st)
                  else NoValidData)))"

subsection \<open>Spreadsheet restore (services, restoreDataFromGoogleSheets)\<close>

text \<open>
  The body of \<open>range.values.forEach\<close>: one row of cells, read as strings, is
  turned into a transaction that holds the account names in place of the ids, and
  its account names are collected.  \<open>newId n\<close> is the id drawn for the
  transaction pushed when \<open>transactions\<close> holds \<open>n\<close> entries.
\<close>

definition or_empty :: "jsstring option \<Rightarrow> jsstring" where
  "or_empty v = (case v of None \<Rightarrow> [] | Some s \<Rightarrow> s)"

definition restore_row ::
  "(nat \<Rightarrow> jsstring) \<Rightarrow> ImportedTx list \<times> jsstring set \<Rightarrow> jsstring list \<Rightarrow>
     ImportedTx list \<times> jsstring set" where
  "restore_row newId acc row =
     (if length row < 3 then acc
      else
        (let transactions = fst acc;
             accountNames = snd acc;
             date = row ! 0;
             typeLabel = row ! 1;
             amount = parseFloat (filter (\<lambda>c. c \<noteq> 44) (row ! 2));
             categoryName = cell row 3;
             description = or_empty (cell row 4);
             location = or_empty (cell row 5);
             accountName = or_empty (cell row 6);
             toAccountName = or_empty (cell row 7);
             type = (if typeLabel = label_income then INCOME
                     else if typeLabel = label_transfer \<or> typeLabel = label_transfer_out \<or>
                             typeLabel = label_transfer_in then TRANSFER
                     else EXPENSE);
             names1 = (if accountName \<noteq> [] then insert accountName accountNames else accountNames);
             names2 = (if toAccountName \<noteq> [] then insert toAccountName names1 else names1)
         in (transactions @
               [\<lparr>itx_id = newId (length transactions),
                 itx_date = date,
                 itx_amount = (if isNaN amount then Fin 0 else amount),
                 itx_type = type,
                 itx_category = getCategoryId categoryName type,
                 itx_description = Some description,
                 itx_location = Some location,
                 itx_accountId = Some accountName,
                 itx_toAccountId = Some toAccountName\<rparr>],
             names2)))"

text \<open>
  The daily sample template due 2024-01-01 after a run on 2024-01-13, and the twelve
  instances of that run.
\<close>

definition sample_instance :: "nat \<Rightarrow> string \<Rightarrow> Transaction" where
  "sample_instance n d =
     newTx_of (sample_ids n) ((sample_rt DAILY ''2024-01-01'' None)\<lparr>rt_nextDueDate := str d\<rparr>)"

definition capped_txs :: "Transaction list" where
  "capped_txs =
     [sample_instance 0 ''2024-01-01'', sample_instance 1 ''2024-01-02'',
      sample_instance 2 ''2024-01-03'', sample_instance 3 ''2024-01-04'',
      sample_instance 4 ''2024-01-05'', sample_instance 5 ''2024-01-06'',
      sample_instance 6 ''2024-01-07'', sample_instance 7 ''2024-01-08'',
      sample_instance 8 ''2024-01-09'', sample_instance 9 ''2024-01-10'',
      sample_instance 10 ''2024-01-11'', sample_instance 11 ''2024-01-12'']"

definition capped_rt :: RecurringTransaction where
  "capped_rt =
     (sample_rt DAILY ''2024-01-01'' None)
       \<lparr>rt_lastGenerated := Some (str ''2024-01-12''), rt_nextDueDate := str ''2024-01-13''\<rparr>"

section \<open>Notions used to state the scheduler's properties\<close>

text \<open>
  A string the scheduler can step: a date of the form \<open>YYYY-MM-DD\<close> naming a
  day that exists.
\<close>

definition isCalendarDate :: "jsstring \<Rightarrow> bool" where
  "isCalendarDate s = (length s = 10 \<and> newDate s \<noteq> None)"

text \<open>
  The catch-up pass run on one template on a sequence of days \<open>today\<close>, each run
  on the template the run before returned; the instances of all runs are collected.
\<close>

fun advance_many ::
  "int \<Rightarrow> (nat \<Rightarrow> jsstring) \<Rightarrow> jsstring list \<Rightarrow> RecurringTransaction \<Rightarrow>
     (error + RecurringTransaction \<times> Transaction list) option" where
  "advance_many tz freshId [] rt = Some (Inr (rt, []))"
| "advance_many tz freshId (today # days) rt =
     (case advance tz today freshId rt of
        None \<Rightarrow> None
      | Some (Inl e) \<Rightarrow> Some (Inl e)
      | Some (Inr (rt', txs)) \<Rightarrow>
          (case advance_many tz freshId days rt' of
             None \<Rightarrow> None
           | Some (Inl e) \<Rightarrow> Some (Inl e)
           | Some (Inr (rt'', txs')) \<Rightarrow> Some (Inr (rt'', txs @ txs'))))"

text \<open>
  \<open>due_chain tz freq due ds final\<close>: the dates \<open>ds\<close> are the successive values
  of \<open>nextDueDate\<close>, starting at \<open>due\<close> and each obtained from the one before by
  \<open>getNextDate\<close>, and \<open>final\<close> is the value after the last of them.
\<close>

fun due_chain :: "int \<Rightarrow> Frequency \<Rightarrow> jsstring \<Rightarrow> jsstring list \<Rightarrow> jsstring \<Rightarrow> bool" where
  "due_chain tz freq due [] final = (due = final)"
| "due_chain tz freq due (d # ds) final =
     (d = due \<and>
      (case getNextDate tz due freq of
         Some (Inr nextDue) \<Rightarrow> due_chain tz freq nextDue ds final
       | _ \<Rightarrow> False))"

text \<open>
  What an emitted instance takes from its template, and the fields of a template
  that the pass never writes.
\<close>

definition instance_of :: "RecurringTransaction \<Rightarrow> Transaction \<Rightarrow> bool" where
  "instance_of rt t =
     (tx_isRecurringInstance t = Some True \<and> tx_amount t = rt_amount rt \<and>
      tx_type t = rt_type rt \<and> tx_category t = rt_category rt \<and>
      tx_location t = rt_location rt \<and> tx_accountId t = rt_accountId rt \<and>
      tx_toAccountId t = rt_toAccountId rt \<and>
      tx_description t = rt_description rt @ auto_suffix \<and>
      tx_description t \<noteq> rt_description rt)"

definition same_template :: "RecurringTransaction \<Rightarrow> RecurringTransaction \<Rightarrow> bool" where
  "same_template a b =
     (rt_id a = rt_id b \<and> rt_frequency a = rt_frequency b \<and> rt_startDate a = rt_startDate b \<and>
      rt_endDate a = rt_endDate b \<and> rt_amount a = rt_amount b \<and> rt_type a = rt_type b \<and>
      rt_category a = rt_category b \<and> rt_description a = rt_description b \<and>
      rt_location a = rt_location b \<and> rt_accountId a = rt_accountId b \<and>
      rt_toAccountId a = rt_toAccountId b)"

text \<open>
  One \<open>setMonth(getMonth() + 1)\<close> on a local calendar day, and the test of the
  bi-monthly loop on the local month number.
\<close>

definition stepMonth :: "civil \<Rightarrow> civil" where
  "stepMonth l = makeDay (year l) (month l + 1) (dom l)"

definition parity_ok :: "Frequency \<Rightarrow> civil \<Rightarrow> bool" where
  "parity_ok freq l =
     ((freq = BI_MONTHLY_ODD \<and> odd (month l + 1)) \<or> (freq = BI_MONTHLY_EVEN \<and> even (month l + 1)))"

section \<open>Properties of the balance computation\<close>

subsection \<open>Arithmetic of the number model\<close>

lemma jsadd_commute: "jsadd a b = jsadd b a"
  by (cases a; cases b) simp_all

lemma jsadd_assoc: "jsadd (jsadd a b) c = jsadd a (jsadd b c)"
  by (cases a; cases b; cases c) simp_all

lemma jsadd_zero_right [simp]: "jsadd a (Fin 0) = a"
  by (cases a) simp_all

lemma jsadd_zero_left [simp]: "jsadd (Fin 0) a = a"
  by (cases a) simp_all

lemma jsadd_left_commute: "jsadd a (jsadd b c) = jsadd b (jsadd a c)"
  by (metis jsadd_assoc jsadd_commute)

subsection \<open>Balance updates commute\<close>

lemma sub_from_add_to: "sub_from b k amt = add_to b k (jsneg amt)"
  by (simp add: sub_from_def add_to_def jssub_def)


lemma balance_step_ops:
  "balance_step b tx =
     (if tx_amount tx = NaN then b
      else case tx_type tx of
        INCOME \<Rightarrow> add_to b (tx_accountId tx) (tx_amount tx)
      | EXPENSE \<Rightarrow> add_to b (tx_accountId tx) (jsneg (tx_amount tx))
      | TRANSFER \<Rightarrow>
          if truthy (tx_toAccountId tx)
          then add_to (add_to b (tx_accountId tx) (jsneg (tx_amount tx)))
                 (the (tx_toAccountId tx)) (tx_amount tx)
          else b)"
  by (cases "tx_type tx") (simp_all add: balance_step_def Let_def isNaN_def sub_from_add_to)


subsection \<open>The balance of a listed account\<close>





lemma balance_step_no_destination:
  "tx_type tx = TRANSFER \<Longrightarrow> \<not> truthy (tx_toAccountId tx) \<Longrightarrow> balance_step b tx = b"
  by (simp add: balance_step_ops)




text \<open>
  Claim C2, as amended.  A TRANSFER whose toAccountId is absent (or the empty
  string) changes no balance at all: the source account is not debited, no account
  is credited, and the computation goes on with the next transaction.  Removing
  such a transaction from the list leaves the result unchanged.
\<close>

theorem transfer_without_destination_is_skipped:
  "tx_type tx = TRANSFER \<Longrightarrow> \<not> truthy (tx_toAccountId tx) \<Longrightarrow>
     balance_step b tx = b \<and>
     accountBalances accounts (xs @ tx # ys) = accountBalances accounts (xs @ ys)"
  by (simp add: accountBalances_def balance_step_no_destination)

theorem transfer_without_destination_is_skipped_witness:
  "tx_type (sample_tx TRANSFER 300 ''a1'' None) = TRANSFER \<and>
   \<not> truthy (tx_toAccountId (sample_tx TRANSFER 300 ''a1'' None)) \<and>
   accountBalances [sample_account ''a1'' ''cash'' 500]
     ([sample_tx EXPENSE 100 ''a1'' None] @ sample_tx TRANSFER 300 ''a1'' None # []) (str ''a1'') =
   Some (Fin 400)"
proof -
  let ?tx = "sample_tx TRANSFER 300 ''a1'' None"
  have t: "tx_type ?tx = TRANSFER" and n: "\<not> truthy (tx_toAccountId ?tx)"
    by (simp_all add: sample_tx_def truthy_def)
  from transfer_without_destination_is_skipped [OF t n, of _ "[sample_account ''a1'' ''cash'' 500]"
      "[sample_tx EXPENSE 100 ''a1'' None]" "[]"]
  have "accountBalances [sample_account ''a1'' ''cash'' 500]
      ([sample_tx EXPENSE 100 ''a1'' None] @ ?tx # []) =
    accountBalances [sample_account ''a1'' ''cash'' 500] ([sample_tx EXPENSE 100 ''a1'' None] @ [])"
    by blast
  moreover have "accountBalances [sample_account ''a1'' ''cash'' 500]
      ([sample_tx EXPENSE 100 ''a1'' None] @ []) (str ''a1'') = Some (Fin 400)"
    by (simp add: accountBalances_def init_bals_def balance_step_ops add_to_def read_bal_def
        sample_account_def sample_tx_def str_def)
  ultimately show ?thesis using t n by simp
qed

text \<open>
  Claim C2 as stated fails: a transfer of 300 out of a1 (balance 500) with no
  toAccountId leaves a1 at 500; debiting the source would give 200.
\<close>

theorem transfer_without_destination_counterexample:
  "accountBalances [sample_account ''a1'' ''cash'' 500] [sample_tx TRANSFER 300 ''a1'' None]
     (str ''a1'') = Some (Fin 500) \<and>
   jssub (Fin 500) (tx_amount (sample_tx TRANSFER 300 ''a1'' None)) = Fin 200"
  by (simp add: accountBalances_def init_bals_def balance_step_ops truthy_def jssub_def
      sample_account_def sample_tx_def str_def)

section \<open>Properties of the calendar arithmetic\<close>

lemma daysInMonth_bounds: "28 \<le> daysInMonth y m" "daysInMonth y m \<le> 31"
  by (simp_all add: daysInMonth_def)

lemma daysInMonth_pos: "Suc 0 \<le> daysInMonth y m" "0 < daysInMonth y m"
  by (simp_all add: daysInMonth_def)

lemma daysInMonth_11: "daysInMonth y 11 = 31"
  by (simp add: daysInMonth_def)

lemma overflow_small: "d \<le> 56 \<Longrightarrow> 28 \<le> k \<Longrightarrow> d - k \<le> daysInMonth y' m'"
  using daysInMonth_bounds(1) [of y' m'] by linarith

lemma roll_days_stop: "d \<le> daysInMonth y m \<Longrightarrow> roll_days y m d = \<lparr>year = y, month = m, dom = d\<rparr>"
  by (subst roll_days.simps) simp

lemma roll_days_once:
  assumes "d \<le> 56"
  shows "roll_days y m d =
     (if daysInMonth y m < d
      then (if m = 11 then \<lparr>year = y + 1, month = 0, dom = d - daysInMonth y m\<rparr>
            else \<lparr>year = y, month = m + 1, dom = d - daysInMonth y m\<rparr>)
      else \<lparr>year = y, month = m, dom = d\<rparr>)"
  by (subst roll_days.simps) (simp add: roll_days_stop overflow_small [OF assms] daysInMonth_bounds)

lemma makeDay_small:
  assumes "m \<le> 12" "d \<le> 56"
  shows "makeDay y m d =
     (let y' = (if m = 12 then y + 1 else y); m' = (if m = 12 then 0 else m) in
      if daysInMonth y' m' < d
      then (if m' = 11 then \<lparr>year = y' + 1, month = 0, dom = d - daysInMonth y' m'\<rparr>
            else \<lparr>year = y', month = m' + 1, dom = d - daysInMonth y' m'\<rparr>)
      else \<lparr>year = y', month = m', dom = d\<rparr>)"
proof (cases "m = 12")
  case True
  then show ?thesis using assms by (simp add: makeDay_def roll_days_once Let_def)
next
  case False
  with assms have "m div 12 = 0" "m mod 12 = m" by auto
  with False show ?thesis using assms by (simp add: makeDay_def roll_days_once Let_def)
qed

lemma makeDay_valid:
  assumes "m \<le> 12" "1 \<le> d" "d \<le> 56"
  shows "valid_civil (makeDay y m d)" and "y \<le> year (makeDay y m d)" and "year (makeDay y m d) \<le> y + 2"
  using assms
  by (auto simp: makeDay_small valid_civil_def Let_def not_less overflow_small daysInMonth_bounds)

lemma next_day_valid:
  assumes "valid_civil c"
  shows "valid_civil (next_day c)" and "year c \<le> year (next_day c)" and "year (next_day c) \<le> year c + 2"
proof -
  from assms have "month c \<le> 12" "1 \<le> dom c + 1" "dom c + 1 \<le> 56"
    using daysInMonth_bounds(2) [of "year c" "month c"] by (auto simp: valid_civil_def)
  then show "valid_civil (next_day c)" and "year c \<le> year (next_day c)" and "year (next_day c) \<le> year c + 2"
    unfolding next_day_def by (rule makeDay_valid)+
qed

lemma prev_day_valid:
  assumes "valid_civil c"
  shows "valid_civil (prev_day c)" and "year c - 1 \<le> year (prev_day c)" and "year (prev_day c) \<le> year c"
  using assms
  by (auto simp: prev_day_def valid_civil_def daysInMonth_pos daysInMonth_11)

lemma prev_next_day:
  assumes "valid_civil c"
  shows "prev_day (next_day c) = c"
proof -
  from assms have b: "month c \<le> 12" "dom c + 1 \<le> 56" "month c \<noteq> 12"
    using daysInMonth_bounds(2) [of "year c" "month c"] by (auto simp: valid_civil_def)
  show ?thesis
    using assms unfolding next_day_def makeDay_small [OF b(1,2)]
    by (cases c) (auto simp: prev_day_def valid_civil_def Let_def daysInMonth_11)
qed

lemma is_digit_add [simp]: "k < 10 \<Longrightarrow> is_digit (48 + k)"
  by (simp add: is_digit_def)

lemma digit_val_add [simp]: "digit_val (48 + k) = k"
  by (simp add: digit_val_def)

lemma div_100: "(n::nat) div 100 = n div 10 div 10"
  using div_mult2_eq [of n 10 10] by simp

lemma div_1000: "(n::nat) div 1000 = n div 10 div 10 div 10"
  using div_mult2_eq [of n 100 10] by (simp add: div_100)

lemma div_10000: "(n::nat) div 10000 = n div 10 div 10 div 10 div 10"
  using div_mult2_eq [of n 1000 10] by (simp add: div_1000)

lemma div_100000: "(n::nat) div 100000 = n div 10 div 10 div 10 div 10 div 10"
  using div_mult2_eq [of n 10000 10] by (simp add: div_10000)

lemma digits_val_Cons: "digits_val ((48 + k) # s) = k * 10 ^ length s + digits_val s"
proof -
  have "foldl (\<lambda>acc c. 10 * acc + digit_val c) a s = a * 10 ^ length s + foldl (\<lambda>acc c. 10 * acc + digit_val c) 0 s" for a
  proof (induction s arbitrary: a rule: rev_induct)
    case Nil
    show ?case by simp
  next
    case (snoc x xs)
    show ?case
      by (simp only: foldl_append foldl.simps, subst snoc.IH [of a]) (simp add: algebra_simps)
  qed
  from this [of k] show ?thesis by (simp add: digits_val_def)
qed

lemma digits_val_Nil: "digits_val [] = 0"
  by (simp add: digits_val_def)

lemma last_digit: "m div 10 = 0 \<Longrightarrow> (m::nat) mod 10 = m"
  by (metis div_eq_0_iff mod_less zero_neq_numeral)

lemma digits_val_pad2: "n < 100 \<Longrightarrow> digits_val (pad2 n) = n"
proof -
  assume "n < 100"
  then have "n div 10 < 10" by simp
  then have "n div 10 mod 10 = n div 10" by simp
  then show ?thesis
    by (simp add: pad2_def digits_val_Cons digits_val_Nil)
qed

lemma digits_val_pad4: "n < 10000 \<Longrightarrow> digits_val (pad4 n) = n"
proof -
  assume "n < 10000"
  then have "n div 1000 < 10" by simp
  then have t: "n div 10 div 10 div 10 mod 10 = n div 10 div 10 div 10" by (simp add: div_1000)
  define a where "a = n div 10"
  define b where "b = a div 10"
  define c where "c = b div 10"
  have 1: "n = 10 * a + n mod 10" by (simp add: a_def)
  have 2: "a = 10 * b + a mod 10" by (simp add: b_def)
  have 3: "b = 10 * c + b mod 10" by (simp add: c_def)
  have "digits_val (pad4 n) = c * 1000 + b mod 10 * 100 + a mod 10 * 10 + n mod 10"
    using t by (simp add: pad4_def digits_val_Cons digits_val_Nil div_100 div_1000 a_def b_def c_def)
  also have "\<dots> = n" using 1 2 3 by linarith
  finally show ?thesis .
qed

lemma digits_val_pad6: "n < 1000000 \<Longrightarrow> digits_val (pad6 n) = n"
proof -
  assume "n < 1000000"
  then have "n div 100000 < 10" by simp
  then have t: "n div 10 div 10 div 10 div 10 div 10 mod 10 = n div 10 div 10 div 10 div 10 div 10"
    by (simp add: div_100000)
  define a where "a = n div 10"
  define b where "b = a div 10"
  define c where "c = b div 10"
  define d where "d = c div 10"
  define e where "e = d div 10"
  have 1: "n = 10 * a + n mod 10" by (simp add: a_def)
  have 2: "a = 10 * b + a mod 10" by (simp add: b_def)
  have 3: "b = 10 * c + b mod 10" by (simp add: c_def)
  have 4: "c = 10 * d + c mod 10" by (simp add: d_def)
  have 5: "d = 10 * e + d mod 10" by (simp add: e_def)
  have "digits_val (pad6 n) =
      e * 100000 + d mod 10 * 10000 + c mod 10 * 1000 + b mod 10 * 100 + a mod 10 * 10 + n mod 10"
    using t by (simp add: pad6_def pad4_def digits_val_Cons digits_val_Nil
        div_100 div_1000 div_10000 div_100000 a_def b_def c_def d_def e_def)
  also have "\<dots> = n" using 1 2 3 4 5 by linarith
  finally show ?thesis .
qed

lemma mod10_lt [simp]: "(n::nat) mod 10 < 10"
  by simp

lemma all_digit_pad2 [simp]: "list_all is_digit (pad2 n)"
  by (simp add: pad2_def)

lemma all_digit_pad4 [simp]: "list_all is_digit (pad4 n)"
  by (simp add: pad4_def)

lemma all_digit_pad6 [simp]: "list_all is_digit (pad6 n)"
  by (simp add: pad6_def pad4_def)

lemma length_pad [simp]: "length (pad2 n) = 2" "length (pad4 n) = 4" "length (pad6 n) = 6"
  by (simp_all add: pad2_def pad4_def pad6_def)

lemma in_range_small: "\<bar>year c\<bar> \<le> 200000 \<Longrightarrow> in_range c"
  by (auto simp: in_range_def)

lemma civil_of_fields_pad:
  assumes "valid_civil c" "in_range c"
  shows "civil_of_fields (year c) (pad2 (month c + 1)) (pad2 (dom c)) = Some c"
proof -
  from assms(1) have "month c + 1 < 100" "dom c < 100"
    using daysInMonth_bounds(2) [of "year c" "month c"] by (auto simp: valid_civil_def)
  then show ?thesis using assms
    by (cases c) (simp add: civil_of_fields_def digits_val_pad2 Let_def)
qed

lemma newDate_isoDate:
  assumes "valid_civil c" "\<bar>year c\<bar> \<le> 200000"
  shows "newDate (isoDate c) = Some c"
proof (cases "0 \<le> year c \<and> year c \<le> 9999")
  case True
  let ?s = "isoDate c"
  have s: "?s = pad4 (nat (year c)) @ [45] @ pad2 (month c + 1) @ [45] @ pad2 (dom c)"
    using True by (simp add: isoDate_def isoYear_def str_def)
  have "length ?s = 10" "?s ! 4 = 45" "?s ! 7 = 45" "take 4 ?s = pad4 (nat (year c))"
    "take 2 (drop 5 ?s) = pad2 (month c + 1)" "drop 8 ?s = pad2 (dom c)"
    unfolding s by (simp_all add: nth_append)
  moreover have "int (digits_val (pad4 (nat (year c)))) = year c"
  proof -
    from True have "nat (year c) < 10000" by linarith
    then show ?thesis using True by (simp add: digits_val_pad4)
  qed
  ultimately show ?thesis
    using civil_of_fields_pad [OF assms(1) in_range_small [OF assms(2)]]
    by (simp add: newDate_def)
next
  case False
  let ?s = "isoDate c"
  let ?sg = "if year c < 0 then 45 else 43 :: nat"
  have s: "?s = [?sg] @ pad6 (nat \<bar>year c\<bar>) @ [45] @ pad2 (month c + 1) @ [45] @ pad2 (dom c)"
    using False by (simp add: isoDate_def isoYear_def str_def)
  have "length ?s = 13" "?s ! 0 = ?sg" "?s ! 7 = 45" "?s ! 10 = 45" "take 6 (drop 1 ?s) = pad6 (nat \<bar>year c\<bar>)"
    "take 2 (drop 8 ?s) = pad2 (month c + 1)" "drop 11 ?s = pad2 (dom c)"
    unfolding s by (simp_all add: nth_append)
  moreover have "digits_val (pad6 (nat \<bar>year c\<bar>)) = nat \<bar>year c\<bar>"
  proof -
    from assms(2) have "nat \<bar>year c\<bar> < 1000000" by linarith
    then show ?thesis by (simp add: digits_val_pad6)
  qed
  ultimately show ?thesis
    using civil_of_fields_pad [OF assms(1) in_range_small [OF assms(2)]] False
    by (auto simp: newDate_def)
qed

lemma newDate_valid:
  assumes "newDate s = Some c"
  shows "valid_civil c" "in_range c"
  using assms
  by (auto simp: newDate_def civil_of_fields_def Let_def split: if_splits)

lemma digits_val_4_bound: "length s = 4 \<Longrightarrow> list_all is_digit s \<Longrightarrow> digits_val s \<le> 9999"
proof -
  assume "length s = 4" and d: "list_all is_digit s"
  then obtain a b c e where "s = [a, b, c, e]"
    by (auto simp: numeral_eq_Suc length_Suc_conv)
  with d show ?thesis
    unfolding is_digit_def digit_val_def digits_val_def by simp arith
qed

lemma localDay_ok:
  assumes "valid_civil c"
  shows "\<exists>l. localDay tz (Some c) = Some l \<and> valid_civil l \<and> year c - 1 \<le> year l \<and> year l \<le> year c"
  using prev_day_valid [OF assms] assms by (simp add: localDay_def)

lemma fromLocal_ok:
  assumes "valid_civil l" "\<bar>year l\<bar> \<le> 199000"
  shows "\<exists>c. fromLocal tz l = Some c \<and> valid_civil c \<and> year l \<le> year c \<and> year c \<le> year l + 2 \<and>
             localDay tz (Some c) = Some l"
proof (cases "tz < 0")
  case True
  from next_day_valid [OF assms(1)] assms(2) have "in_range (next_day l)"
    by (intro in_range_small) linarith
  with True next_day_valid [OF assms(1)] prev_next_day [OF assms(1)] show ?thesis
    by (simp add: fromLocal_def localDay_def)
next
  case False
  from assms(2) have "in_range l" by (intro in_range_small) linarith
  with False assms(1) show ?thesis
    by (simp add: fromLocal_def localDay_def)
qed

lemma stepMonth_valid:
  assumes "valid_civil l"
  shows "valid_civil (stepMonth l)" "year l \<le> year (stepMonth l)" "year (stepMonth l) \<le> year l + 2"
proof -
  from assms have "month l + 1 \<le> 12" "1 \<le> dom l" "dom l \<le> 56"
    using daysInMonth_bounds(2) [of "year l" "month l"] by (auto simp: valid_civil_def)
  then show "valid_civil (stepMonth l)" "year l \<le> year (stepMonth l)" "year (stepMonth l) \<le> year l + 2"
    unfolding stepMonth_def by (rule makeDay_valid)+
qed

lemma stepMonth_parity:
  assumes "valid_civil l"
  shows "even (month (stepMonth l)) \<noteq> even (month l) \<or>
         (even (month (stepMonth l)) = even (month l) \<and> dom (stepMonth l) \<le> 3)"
proof -
  from assms have b: "month l + 1 \<le> 12" "dom l \<le> 56" "dom l \<le> 31" "month l < 12"
    using daysInMonth_bounds(2) [of "year l" "month l"] by (auto simp: valid_civil_def)
  have d: "dom l - daysInMonth y m \<le> 3" for y m
    using b(3) daysInMonth_bounds(1) [of y m] by linarith
  show ?thesis
    unfolding stepMonth_def makeDay_small [OF b(1,2)] using b(3,4) d
    by (auto simp: Let_def daysInMonth_11)
qed

lemma stepMonth_parity_small:
  assumes "valid_civil l" "dom l \<le> 28"
  shows "even (month (stepMonth l)) \<noteq> even (month l)"
proof -
  from assms have b: "month l + 1 \<le> 12" "dom l \<le> 56" "month l < 12"
    by (auto simp: valid_civil_def)
  have d: "\<not> daysInMonth y m < dom l" for y m
    using assms(2) daysInMonth_bounds(1) [of y m] by linarith
  show ?thesis
    unfolding stepMonth_def makeDay_small [OF b(1,2)] using b(3)
    by (auto simp: Let_def d)
qed

lemma parity_within_two_steps:
  assumes "valid_civil l" "freq = BI_MONTHLY_ODD \<or> freq = BI_MONTHLY_EVEN"
  shows "parity_ok freq l \<or> parity_ok freq (stepMonth l) \<or> parity_ok freq (stepMonth (stepMonth l))"
proof -
  have v1: "valid_civil (stepMonth l)" by (rule stepMonth_valid [OF assms(1)])
  from stepMonth_parity [OF assms(1)] show ?thesis
  proof
    assume "even (month (stepMonth l)) \<noteq> even (month l)"
    with assms(2) show ?thesis by (auto simp: parity_ok_def)
  next
    assume "even (month (stepMonth l)) = even (month l) \<and> dom (stepMonth l) \<le> 3"
    then have "even (month (stepMonth (stepMonth l))) \<noteq> even (month l)"
      using stepMonth_parity_small [OF v1] by simp
    with assms(2) show ?thesis by (auto simp: parity_ok_def)
  qed
qed

lemma biMonthlyLoop_unfold:
  assumes "localDay tz (Some c) = Some l"
  shows "biMonthlyLoop tz freq (Some c) =
     (if parity_ok freq l then Some (Some c) else biMonthlyLoop tz freq (fromLocal tz (stepMonth l)))"
  by (subst biMonthlyLoop.simps)
     (simp add: getMonth_def setMonth_def isOdd_def isEven_def parity_ok_def stepMonth_def assms
        even_iff_mod_2_eq_zero)

lemma biMonthlyLoop_total:
  assumes l: "valid_civil l" "\<bar>year l\<bar> \<le> 190000"
    and c: "localDay tz (Some c) = Some l" "valid_civil c" "\<bar>year c\<bar> \<le> \<bar>year l\<bar> + 2"
    and f: "freq = BI_MONTHLY_ODD \<or> freq = BI_MONTHLY_EVEN"
  shows "\<exists>c' l'. biMonthlyLoop tz freq (Some c) = Some (Some c') \<and> valid_civil c' \<and>
           \<bar>year c'\<bar> \<le> \<bar>year l\<bar> + 6 \<and> localDay tz (Some c') = Some l' \<and> parity_ok freq l'"
proof (cases "parity_ok freq l")
  case True
  with c show ?thesis by (auto simp: biMonthlyLoop_unfold [OF c(1)])
next
  case n0: False
  let ?l1 = "stepMonth l"
  note v1 = stepMonth_valid [OF l(1)]
  from v1 l(2) have y1: "\<bar>year ?l1\<bar> \<le> 199000" "\<bar>year ?l1\<bar> \<le> \<bar>year l\<bar> + 2" by linarith+
  from fromLocal_ok [OF v1(1) y1(1), of tz] obtain c1 where
    c1: "fromLocal tz ?l1 = Some c1" "valid_civil c1" "year ?l1 \<le> year c1" "year c1 \<le> year ?l1 + 2"
      "localDay tz (Some c1) = Some ?l1"
    by blast
  have e0: "biMonthlyLoop tz freq (Some c) = biMonthlyLoop tz freq (Some c1)"
    using n0 by (simp add: biMonthlyLoop_unfold [OF c(1)] c1(1))
  show ?thesis
  proof (cases "parity_ok freq ?l1")
    case True
    have "\<bar>year c1\<bar> \<le> \<bar>year l\<bar> + 6" using c1(3,4) y1(2) v1(2,3) by linarith
    with True c1 e0 show ?thesis by (auto simp: biMonthlyLoop_unfold [OF c1(5)])
  next
    case n1: False
    let ?l2 = "stepMonth ?l1"
    note v2 = stepMonth_valid [OF v1(1)]
    from v2 v1 l(2) have y2: "\<bar>year ?l2\<bar> \<le> 199000" "\<bar>year ?l2\<bar> \<le> \<bar>year l\<bar> + 4" by linarith+
    from fromLocal_ok [OF v2(1) y2(1), of tz] obtain c2 where
      c2: "fromLocal tz ?l2 = Some c2" "valid_civil c2" "year ?l2 \<le> year c2" "year c2 \<le> year ?l2 + 2"
        "localDay tz (Some c2) = Some ?l2"
      by blast
    have e1: "biMonthlyLoop tz freq (Some c1) = biMonthlyLoop tz freq (Some c2)"
      using n1 by (simp add: biMonthlyLoop_unfold [OF c1(5)] c2(1))
    from parity_within_two_steps [OF l(1) f] n0 n1 have ok2: "parity_ok freq ?l2" by blast
    have "\<bar>year c2\<bar> \<le> \<bar>year l\<bar> + 6" using c2(3,4) v2(2,3) v1(2,3) by linarith
    with ok2 c2 e0 e1 show ?thesis by (auto simp: biMonthlyLoop_unfold [OF c2(5)])
  qed
qed


lemma getNextDate_bimonthly:
  assumes s: "newDate s = Some c" and y: "\<bar>year c\<bar> \<le> 150000"
    and f: "freq = BI_MONTHLY_ODD \<or> freq = BI_MONTHLY_EVEN"
  shows "\<exists>c' l'. getNextDate tz s freq = Some (Inr (isoDate c')) \<and> newDate (isoDate c') = Some c' \<and>
           \<bar>year c'\<bar> \<le> \<bar>year c\<bar> + 10 \<and> localDay tz (Some c') = Some l' \<and> parity_ok freq l'"
proof -
  note vc = newDate_valid(1) [OF s]
  from localDay_ok [OF vc, of tz] obtain l where
    l: "localDay tz (Some c) = Some l" "valid_civil l" "year c - 1 \<le> year l" "year l \<le> year c"
    by blast
  let ?l1 = "stepMonth l"
  note v1 = stepMonth_valid [OF l(2)]
  from v1 l y have y1: "\<bar>year ?l1\<bar> \<le> 199000" "\<bar>year ?l1\<bar> \<le> 190000" "\<bar>year ?l1\<bar> \<le> \<bar>year c\<bar> + 3"
    by linarith+
  from fromLocal_ok [OF v1(1) y1(1), of tz] obtain c1 where
    c1: "fromLocal tz ?l1 = Some c1" "valid_civil c1" "year ?l1 \<le> year c1" "year c1 \<le> year ?l1 + 2"
      "localDay tz (Some c1) = Some ?l1"
    by blast
  from c1(3,4) have "\<bar>year c1\<bar> \<le> \<bar>year ?l1\<bar> + 2" by linarith
  from biMonthlyLoop_total [OF v1(1) y1(2) c1(5) c1(2) this f] obtain c' l' where
    c': "biMonthlyLoop tz freq (Some c1) = Some (Some c')" "valid_civil c'"
      "\<bar>year c'\<bar> \<le> \<bar>year ?l1\<bar> + 6" "localDay tz (Some c') = Some l'" "parity_ok freq l'"
    by blast
  from c'(3) y1(3) y have yc: "\<bar>year c'\<bar> \<le> 200000" "\<bar>year c'\<bar> \<le> \<bar>year c\<bar> + 10" by linarith+
  have "getNextDate tz s freq = Some (Inr (isoDate c'))"
    using f c'(1) c1(1)
    by (auto simp: getNextDate_def s l(1) setMonth_def getMonth_def stepMonth_def toISOString_date_def)
  with yc c' newDate_isoDate [OF c'(2) yc(1)] show ?thesis by blast
qed


lemma isCalendarDate_year:
  assumes "isCalendarDate s"
  shows "\<exists>c. newDate s = Some c \<and> \<bar>year c\<bar> \<le> 9999"
proof -
  from assms obtain c where c: "newDate s = Some c" and len: "length s = 10"
    by (auto simp: isCalendarDate_def)
  from c len have d: "list_all is_digit (take 4 s)" and y: "year c = int (digits_val (take 4 s))"
    by (auto simp: newDate_def civil_of_fields_def Let_def split: if_splits)
  from len have "length (take 4 s) = 4" by simp
  from digits_val_4_bound [OF this d] y c show ?thesis by simp
qed


lemma dormant_loop:
  "truthy (rt_endDate rt) \<Longrightarrow> the (rt_endDate rt) < rt_nextDueDate rt \<Longrightarrow>
     catchUpLoop tz today freshId rt acc g n = Some (Inr (rt, acc, g))"
  by (subst catchUpLoop.simps) simp

lemma dormant_advance:
  "truthy (rt_endDate rt) \<Longrightarrow> the (rt_endDate rt) < rt_nextDueDate rt \<Longrightarrow>
     advance tz today freshId rt = Some (Inr (rt, []))"
  by (simp add: advance_def dormant_loop)

lemma newTx_instance: "instance_of rt0 (newTx_of i rt)" if "same_template rt0 rt"
  using that by (simp add: same_template_def instance_of_def newTx_of_def auto_suffix_def)

lemma catchUpLoop_instances:
  "catchUpLoop tz today freshId rt acc g n = Some (Inr (rt', acc', g')) \<Longrightarrow>
     \<exists>new. acc' = acc @ new \<and> length new \<le> 12 - n \<and>
        (\<forall>t \<in> set new. instance_of rt t) \<and>
        due_chain tz (rt_frequency rt) (rt_nextDueDate rt) (map tx_date new) (rt_nextDueDate rt') \<and>
        same_template rt rt' \<and> (new = [] \<longrightarrow> rt' = rt)"
proof (induction tz today freshId rt acc g n rule: catchUpLoop.induct)
  case (1 tz today freshId tempRt newTransactions generated loopCount)
  show ?case
  proof (cases "rt_nextDueDate tempRt \<le> today \<and> loopCount < 12 \<and>
      \<not> (truthy (rt_endDate tempRt) \<and> rt_nextDueDate tempRt > the (rt_endDate tempRt))")
    case False
    with "1.prems" have "rt' = tempRt" "acc' = newTransactions"
      by (subst (asm) catchUpLoop.simps, auto split: if_splits)+
    then show ?thesis by (simp add: same_template_def)
  next
    case True
    with "1.prems" obtain nextDue where
      nd: "getNextDate tz (rt_nextDueDate tempRt) (rt_frequency tempRt) = Some (Inr nextDue)"
      and rec: "catchUpLoop tz today freshId
                 (tempRt\<lparr>rt_lastGenerated := Some (rt_nextDueDate tempRt), rt_nextDueDate := nextDue\<rparr>)
                 (newTransactions @ [newTx_of (freshId (length newTransactions)) tempRt])
                 True (loopCount + 1) = Some (Inr (rt', acc', g'))"
      by (subst (asm) catchUpLoop.simps) (auto split: option.splits sum.splits)
    let ?rt1 = "tempRt\<lparr>rt_lastGenerated := Some (rt_nextDueDate tempRt), rt_nextDueDate := nextDue\<rparr>"
    from True nd have a: "rt_nextDueDate tempRt \<le> today \<and> loopCount < 12" and
      b: "\<not> (truthy (rt_endDate tempRt) \<and> the (rt_endDate tempRt) < rt_nextDueDate tempRt)" by auto
    from "1.IH" [OF a b nd refl rec] obtain new where
      new: "acc' = (newTransactions @ [newTx_of (freshId (length newTransactions)) tempRt]) @ new"
       "length new \<le> 12 - (loopCount + 1)"
       "\<forall>t \<in> set new. instance_of ?rt1 t"
       "due_chain tz (rt_frequency ?rt1) (rt_nextDueDate ?rt1) (map tx_date new) (rt_nextDueDate rt')"
       "same_template ?rt1 rt'"
      by blast
    have st: "same_template tempRt ?rt1" by (simp add: same_template_def)
    have inst_eq: "instance_of ?rt1 t = instance_of tempRt t" for t
      by (simp add: instance_of_def)
    let ?new = "newTx_of (freshId (length newTransactions)) tempRt # new"
    have "acc' = newTransactions @ ?new" using new(1) by simp
    moreover have "length ?new \<le> 12 - loopCount" using new(2) a by auto
    moreover have "\<forall>t \<in> set ?new. instance_of tempRt t"
      using new(3) by (auto simp: inst_eq intro: newTx_instance simp: same_template_def)
    moreover have "due_chain tz (rt_frequency tempRt) (rt_nextDueDate tempRt) (map tx_date ?new) (rt_nextDueDate rt')"
      using new(4) nd by (simp add: newTx_of_def)
    moreover have "same_template tempRt rt'"
      using new(5) by (simp add: same_template_def)
    ultimately show ?thesis by blast
  qed
qed

section \<open>Properties of the catch-up pass\<close>

lemma catchUpLoop_emit:
  assumes "rt_nextDueDate rt \<le> today" "n < 12"
    and "\<not> (truthy (rt_endDate rt) \<and> the (rt_endDate rt) < rt_nextDueDate rt)"
    and "getNextDate tz (rt_nextDueDate rt) (rt_frequency rt) = Some (Inr nextDue)"
  shows "catchUpLoop tz today freshId rt acc g n =
     catchUpLoop tz today freshId
       (rt\<lparr>rt_lastGenerated := Some (rt_nextDueDate rt), rt_nextDueDate := nextDue\<rparr>)
       (acc @ [newTx_of (freshId (length acc)) rt]) True (n + 1)"
  using assms by (subst catchUpLoop.simps) auto

lemma catchUpLoop_stop:
  assumes "\<not> (rt_nextDueDate rt \<le> today \<and> n < 12) \<or>
           (truthy (rt_endDate rt) \<and> the (rt_endDate rt) < rt_nextDueDate rt)"
  shows "catchUpLoop tz today freshId rt acc g n = Some (Inr (rt, acc, g))"
  using assms by (subst catchUpLoop.simps) auto

lemma catchUpLoop_exit:
  "catchUpLoop tz today freshId rt acc g n = Some (Inr (rt', acc', g')) \<Longrightarrow>
     length acc' < length acc + (12 - n) \<Longrightarrow>
     \<not> rt_nextDueDate rt' \<le> today \<or>
     (truthy (rt_endDate rt') \<and> the (rt_endDate rt') < rt_nextDueDate rt')"
proof (induction tz today freshId rt acc g n rule: catchUpLoop.induct)
  case (1 tz today freshId tempRt newTransactions generated loopCount)
  show ?case
  proof (cases "rt_nextDueDate tempRt \<le> today \<and> loopCount < 12 \<and>
      \<not> (truthy (rt_endDate tempRt) \<and> rt_nextDueDate tempRt > the (rt_endDate tempRt))")
    case False
    then have stop: "\<not> (rt_nextDueDate tempRt \<le> today \<and> loopCount < 12) \<or>
           (truthy (rt_endDate tempRt) \<and> the (rt_endDate tempRt) < rt_nextDueDate tempRt)"
      by auto
    from "1.prems"(1) have eq: "rt' = tempRt" "acc' = newTransactions"
      by (simp_all add: catchUpLoop_stop [OF stop])
    with "1.prems"(2) False show ?thesis by auto
  next
    case True
    then have a: "rt_nextDueDate tempRt \<le> today \<and> loopCount < 12" and
      b: "\<not> (truthy (rt_endDate tempRt) \<and> the (rt_endDate tempRt) < rt_nextDueDate tempRt)" by auto
    from "1.prems"(1) True obtain nextDue where
      nd: "getNextDate tz (rt_nextDueDate tempRt) (rt_frequency tempRt) = Some (Inr nextDue)"
      and rec: "catchUpLoop tz today freshId
                 (tempRt\<lparr>rt_lastGenerated := Some (rt_nextDueDate tempRt), rt_nextDueDate := nextDue\<rparr>)
                 (newTransactions @ [newTx_of (freshId (length newTransactions)) tempRt])
                 True (loopCount + 1) = Some (Inr (rt', acc', g'))"
      by (subst (asm) catchUpLoop.simps) (auto split: option.splits sum.splits)
    from "1.prems"(2) a have
      "length acc' < length (newTransactions @ [newTx_of (freshId (length newTransactions)) tempRt]) +
         (12 - (loopCount + 1))"
      by auto
    from "1.IH" [OF a b nd refl rec this] show ?thesis .
  qed
qed

lemma sample_daily_steps:
  "getNextDate 480 (str ''2024-01-01'') DAILY = Some (Inr (str ''2024-01-02''))"
  "getNextDate 480 (str ''2024-01-02'') DAILY = Some (Inr (str ''2024-01-03''))"
  "getNextDate 480 (str ''2024-01-03'') DAILY = Some (Inr (str ''2024-01-04''))"
  "getNextDate 480 (str ''2024-01-04'') DAILY = Some (Inr (str ''2024-01-05''))"
  "getNextDate 480 (str ''2024-01-05'') DAILY = Some (Inr (str ''2024-01-06''))"
  "getNextDate 480 (str ''2024-01-06'') DAILY = Some (Inr (str ''2024-01-07''))"
  "getNextDate 480 (str ''2024-01-07'') DAILY = Some (Inr (str ''2024-01-08''))"
  "getNextDate 480 (str ''2024-01-08'') DAILY = Some (Inr (str ''2024-01-09''))"
  "getNextDate 480 (str ''2024-01-09'') DAILY = Some (Inr (str ''2024-01-10''))"
  "getNextDate 480 (str ''2024-01-10'') DAILY = Some (Inr (str ''2024-01-11''))"
  "getNextDate 480 (str ''2024-01-11'') DAILY = Some (Inr (str ''2024-01-12''))"
  "getNextDate 480 (str ''2024-01-12'') DAILY = Some (Inr (str ''2024-01-13''))"
  "getNextDate 480 (str ''2024-01-13'') DAILY = Some (Inr (str ''2024-01-14''))"
  by code_simp+

lemma catchUpLoop_emit_case:
  assumes "rt_nextDueDate rt \<le> today" "n < 12"
    and "\<not> (truthy (rt_endDate rt) \<and> the (rt_endDate rt) < rt_nextDueDate rt)"
  shows "catchUpLoop tz today freshId rt acc g n =
     (case getNextDate tz (rt_nextDueDate rt) (rt_frequency rt) of
        None \<Rightarrow> None
      | Some (Inl e) \<Rightarrow> Some (Inl e)
      | Some (Inr nextDue) \<Rightarrow>
          catchUpLoop tz today freshId
            (rt\<lparr>rt_lastGenerated := Some (rt_nextDueDate rt), rt_nextDueDate := nextDue\<rparr>)
            (acc @ [newTx_of (freshId (length acc)) rt]) True (n + 1))"
  using assms by (subst catchUpLoop.simps) auto

lemma sample_dates_le:
  "str ''2024-01-01'' \<le> str ''2024-01-13''" "str ''2024-01-02'' \<le> str ''2024-01-13''"
  "str ''2024-01-03'' \<le> str ''2024-01-13''" "str ''2024-01-04'' \<le> str ''2024-01-13''"
  "str ''2024-01-05'' \<le> str ''2024-01-13''" "str ''2024-01-06'' \<le> str ''2024-01-13''"
  "str ''2024-01-07'' \<le> str ''2024-01-13''" "str ''2024-01-08'' \<le> str ''2024-01-13''"
  "str ''2024-01-09'' \<le> str ''2024-01-13''" "str ''2024-01-10'' \<le> str ''2024-01-13''"
  "str ''2024-01-11'' \<le> str ''2024-01-13''" "str ''2024-01-12'' \<le> str ''2024-01-13''"
  "str ''2024-01-13'' \<le> str ''2024-01-13''" "\<not> str ''2024-01-14'' \<le> str ''2024-01-13''"
  by (simp_all add: str_def)

lemma sample_first_pass:
  "catchUpLoop 480 (str ''2024-01-13'') sample_ids (sample_rt DAILY ''2024-01-01'' None) [] False 0 =
     Some (Inr (capped_rt, capped_txs, True))"
proof -
  have flds: "rt_frequency (sample_rt DAILY d e) = DAILY" "rt_endDate (sample_rt DAILY d None) = None"
    "rt_nextDueDate (sample_rt DAILY d e) = str d" for d e
    by (simp_all add: sample_rt_def)
  have inst: "newTx_of i (r\<lparr>rt_lastGenerated := l, rt_nextDueDate := str d\<rparr>) =
      newTx_of i (r\<lparr>rt_nextDueDate := str d\<rparr>)" for i r l d
    by (simp add: newTx_of_def)
  have inst0: "newTx_of i (sample_rt DAILY d e) = newTx_of i ((sample_rt DAILY d e)\<lparr>rt_nextDueDate := str d\<rparr>)" for i d e
    by (simp add: newTx_of_def sample_rt_def)
  show ?thesis
    apply (simp add: catchUpLoop_emit_case sample_daily_steps sample_dates_le flds truthy_def)
    apply (simp add: catchUpLoop_stop capped_rt_def capped_txs_def sample_instance_def inst)
    apply (simp add: inst0 [symmetric] eval_nat_numeral)
    done
qed

lemma advance_eq:
  "advance tz today freshId rt = Some (Inr (rt', insts)) \<longleftrightarrow>
     (\<exists>g. catchUpLoop tz today freshId rt [] False 0 = Some (Inr (rt', insts, g)))"
  by (auto simp: advance_def split: option.splits sum.splits)



text \<open>
  Claim C4, as amended.  When a run of the catch-up loop on a template returns
  fewer than 12 instances (the cap was not reached), a second run with the same
  \<open>today\<close> on the template it returned emits no instance and leaves that
  template unchanged.
\<close>

theorem catch_up_idempotent_when_not_capped:
  "advance tz today freshId rt = Some (Inr (rt', insts)) \<Longrightarrow> length insts < 12 \<Longrightarrow>
     advance tz today freshId' rt' = Some (Inr (rt', []))"
proof -
  assume "advance tz today freshId rt = Some (Inr (rt', insts))" and short: "length insts < 12"
  then obtain g where r: "catchUpLoop tz today freshId rt [] False 0 = Some (Inr (rt', insts, g))"
    by (auto simp: advance_eq)
  from short have "length insts < length ([] :: Transaction list) + (12 - 0)" by simp
  from catchUpLoop_exit [OF r this]
  have "\<not> (rt_nextDueDate rt' \<le> today \<and> (0::nat) < 12) \<or>
      (truthy (rt_endDate rt') \<and> the (rt_endDate rt') < rt_nextDueDate rt')"
    by auto
  from catchUpLoop_stop [OF this] show ?thesis
    by (simp add: advance_def)
qed

text \<open>
  A daily template due 2024-01-12, run on 2024-01-13: two instances, then none.
\<close>

theorem catch_up_idempotent_when_not_capped_witness:
  "advance 480 (str ''2024-01-13'') sample_ids (sample_rt DAILY ''2024-01-12'' None) =
     Some (Inr ((sample_rt DAILY ''2024-01-12'' None)
                  \<lparr>rt_lastGenerated := Some (str ''2024-01-13''), rt_nextDueDate := str ''2024-01-14''\<rparr>,
                [newTx_of (sample_ids 0) (sample_rt DAILY ''2024-01-12'' None),
                 newTx_of (sample_ids 1)
                   ((sample_rt DAILY ''2024-01-12'' None)\<lparr>rt_nextDueDate := str ''2024-01-13''\<rparr>)])) \<and>
   advance 480 (str ''2024-01-13'') sample_ids
     ((sample_rt DAILY ''2024-01-12'' None)
        \<lparr>rt_lastGenerated := Some (str ''2024-01-13''), rt_nextDueDate := str ''2024-01-14''\<rparr>) =
     Some (Inr ((sample_rt DAILY ''2024-01-12'' None)
                  \<lparr>rt_lastGenerated := Some (str ''2024-01-13''), rt_nextDueDate := str ''2024-01-14''\<rparr>,
                []))"
proof -
  have flds: "rt_frequency (sample_rt DAILY d e) = DAILY" "rt_endDate (sample_rt DAILY d None) = None"
    "rt_nextDueDate (sample_rt DAILY d e) = str d" for d e
    by (simp_all add: sample_rt_def)
  have inst: "newTx_of i (r\<lparr>rt_lastGenerated := l, rt_nextDueDate := str d\<rparr>) =
      newTx_of i (r\<lparr>rt_nextDueDate := str d\<rparr>)" for i r l d
    by (simp add: newTx_of_def)
  have first: "advance 480 (str ''2024-01-13'') sample_ids (sample_rt DAILY ''2024-01-12'' None) =
     Some (Inr ((sample_rt DAILY ''2024-01-12'' None)
                  \<lparr>rt_lastGenerated := Some (str ''2024-01-13''), rt_nextDueDate := str ''2024-01-14''\<rparr>,
                [newTx_of (sample_ids 0) (sample_rt DAILY ''2024-01-12'' None),
                 newTx_of (sample_ids 1)
                   ((sample_rt DAILY ''2024-01-12'' None)\<lparr>rt_nextDueDate := str ''2024-01-13''\<rparr>)]))"
    unfolding advance_def
    apply (simp add: catchUpLoop_emit_case sample_daily_steps sample_dates_le flds truthy_def)
    apply (simp add: catchUpLoop_stop sample_dates_le inst)
    done
  from catch_up_idempotent_when_not_capped [OF first, of sample_ids] first show ?thesis
    by simp
qed

text \<open>
  Claim C4 as stated fails after a capped run: the daily template due 2024-01-01,
  run on 2024-01-13, emits 12 instances and is left due on 2024-01-13; the second
  run with the same \<open>today\<close> emits one more instance and advances the template
  to 2024-01-14.
\<close>

theorem catch_up_idempotent_counterexample:
  "advance 480 (str ''2024-01-13'') sample_ids (sample_rt DAILY ''2024-01-01'' None) =
     Some (Inr (capped_rt, capped_txs)) \<and>
   advance 480 (str ''2024-01-13'') sample_ids capped_rt =
     Some (Inr (capped_rt\<lparr>rt_lastGenerated := Some (str ''2024-01-13''),
                          rt_nextDueDate := str ''2024-01-14''\<rparr>,
                [newTx_of (sample_ids 0) capped_rt]))"
proof -
  have flds: "rt_frequency capped_rt = DAILY" "rt_endDate capped_rt = None"
    "rt_nextDueDate capped_rt = str ''2024-01-13''"
    by (simp_all add: capped_rt_def sample_rt_def)
  have "catchUpLoop 480 (str ''2024-01-13'') sample_ids capped_rt [] False 0 =
     Some (Inr (capped_rt\<lparr>rt_lastGenerated := Some (str ''2024-01-13''),
                          rt_nextDueDate := str ''2024-01-14''\<rparr>,
                [newTx_of (sample_ids 0) capped_rt], True))"
    apply (simp add: catchUpLoop_emit_case sample_daily_steps sample_dates_le flds truthy_def)
    apply (simp add: catchUpLoop_stop sample_dates_le)
    done
  then show ?thesis
    by (simp add: advance_def sample_first_pass)
qed

text \<open>
  Claim C5.  A template with a (non-empty) endDate whose nextDueDate is after the
  endDate is dormant: the catch-up loop emits no instance for it and returns it
  unchanged, for every value of \<open>today\<close>, and so does every later run, on any
  sequence of days.  (The dates are compared as the program compares them, as
  strings.)
\<close>

theorem dormant_after_endDate:
  "truthy (rt_endDate rt) \<Longrightarrow> the (rt_endDate rt) < rt_nextDueDate rt \<Longrightarrow>
     advance tz today freshId rt = Some (Inr (rt, [])) \<and>
     advance_many tz freshId days rt = Some (Inr (rt, []))"
  by (induction days) (simp_all add: dormant_advance)

text \<open>
  A monthly template due 2024-03-15 that ended on 2024-02-29, run on three days.
\<close>

theorem dormant_after_endDate_witness:
  "truthy (rt_endDate (sample_rt MONTHLY ''2024-03-15'' (Some (str ''2024-02-29'')))) \<and>
   the (rt_endDate (sample_rt MONTHLY ''2024-03-15'' (Some (str ''2024-02-29'')))) <
     rt_nextDueDate (sample_rt MONTHLY ''2024-03-15'' (Some (str ''2024-02-29''))) \<and>
   advance_many 480 sample_ids [str ''2024-03-15'', str ''2024-03-16'', str ''2031-01-01'']
     (sample_rt MONTHLY ''2024-03-15'' (Some (str ''2024-02-29''))) =
   Some (Inr (sample_rt MONTHLY ''2024-03-15'' (Some (str ''2024-02-29'')), []))"
proof -
  let ?rt = "sample_rt MONTHLY ''2024-03-15'' (Some (str ''2024-02-29''))"
  have t: "truthy (rt_endDate ?rt)" and l: "the (rt_endDate ?rt) < rt_nextDueDate ?rt"
    by (simp_all add: sample_rt_def truthy_def str_def)
  from dormant_after_endDate [OF t l, of 480 _ sample_ids
      "[str ''2024-03-15'', str ''2024-03-16'', str ''2031-01-01'']"] t l
  show ?thesis by blast
qed

text \<open>
  Claim C10.  Every instance emitted by a run of the catch-up loop has
  isRecurringInstance = true, the template's amount, type, category, location,
  accountId and toAccountId, and as description the template's description with
  the suffix \<open>auto_suffix\<close> appended (so not the description itself); the dates
  of the instances are the successive values of nextDueDate, the first the
  template's nextDueDate when the run starts and each next one \<open>getNextDate\<close>
  of the one before.
\<close>

theorem instances_copy_template:
  "advance tz today freshId rt = Some (Inr (rt', insts)) \<Longrightarrow>
     (\<forall>t \<in> set insts. instance_of rt t) \<and>
     due_chain tz (rt_frequency rt) (rt_nextDueDate rt) (map tx_date insts) (rt_nextDueDate rt')"
proof -
  assume "advance tz today freshId rt = Some (Inr (rt', insts))"
  then obtain g where r: "catchUpLoop tz today freshId rt [] False 0 = Some (Inr (rt', insts, g))"
    by (auto simp: advance_eq)
  from catchUpLoop_instances [OF r] show ?thesis by auto
qed

text \<open>
  The twelfth instance of the daily template due 2024-01-01, run on 2024-01-13.
\<close>

theorem instances_copy_template_witness:
  "advance 480 (str ''2024-01-13'') sample_ids (sample_rt DAILY ''2024-01-01'' None) =
     Some (Inr (capped_rt, capped_txs)) \<and>
   instance_of (sample_rt DAILY ''2024-01-01'' None) (sample_instance 11 ''2024-01-12'') \<and>
   tx_description (sample_instance 11 ''2024-01-12'') = str ''rent'' @ [32, 40, 0x81EA, 0x52D5, 41] \<and>
   tx_date (sample_instance 11 ''2024-01-12'') = str ''2024-01-12''"
proof -
  have first: "advance 480 (str ''2024-01-13'') sample_ids (sample_rt DAILY ''2024-01-01'' None) =
     Some (Inr (capped_rt, capped_txs))"
    by (simp add: advance_def sample_first_pass)
  from instances_copy_template [OF first]
  have "\<forall>t \<in> set capped_txs. instance_of (sample_rt DAILY ''2024-01-01'' None) t" by blast
  then have "instance_of (sample_rt DAILY ''2024-01-01'' None) (sample_instance 11 ''2024-01-12'')"
    by (simp add: capped_txs_def)
  moreover have "tx_description (sample_instance 11 ''2024-01-12'') = str ''rent'' @ [32, 40, 0x81EA, 0x52D5, 41]"
    "tx_date (sample_instance 11 ''2024-01-12'') = str ''2024-01-12''"
    by (simp_all add: sample_instance_def newTx_of_def sample_rt_def auto_suffix_def)
  ultimately show ?thesis using first by simp
qed

text \<open>
  In a zone at or east of UTC the bi-monthly step does reach a month of the
  required parity, from every calendar date.
\<close>

lemma bimonthly_parity_east_of_utc:
  assumes "0 \<le> tz" "isCalendarDate s" "freq = BI_MONTHLY_ODD \<or> freq = BI_MONTHLY_EVEN"
  shows "\<exists>c'. getNextDate tz s freq = Some (Inr (isoDate c')) \<and> newDate (isoDate c') = Some c' \<and>
           (freq = BI_MONTHLY_ODD \<longrightarrow> odd (month c' + 1)) \<and>
           (freq = BI_MONTHLY_EVEN \<longrightarrow> even (month c' + 1))"
proof -
  from isCalendarDate_year [OF assms(2)] obtain c where
    c: "newDate s = Some c" "\<bar>year c\<bar> \<le> 9999" by blast
  then have "\<bar>year c\<bar> \<le> 150000" by simp
  from getNextDate_bimonthly [OF c(1) this assms(3), of tz] obtain c' l' where
    r: "getNextDate tz s freq = Some (Inr (isoDate c'))" "newDate (isoDate c') = Some c'"
      "localDay tz (Some c') = Some l'" "parity_ok freq l'"
    by blast
  from r(3) assms(1) have "l' = c'" by (simp add: localDay_def)
  with r show ?thesis by (auto simp: parity_ok_def)
qed

text \<open>
  Claim C6 fails in a zone west of UTC.  The loop tests the local month and
  \<open>toISOString\<close> prints the UTC day: at UTC-5, stepping 2023-01-29 with
  BI_MONTHLY_EVEN stops at local 28 February 19:00, which is 2023-03-01 in UTC, a
  date in March, an odd month.
\<close>

theorem bimonthly_even_west_of_utc:
  "getNextDate (- 300) (str ''2023-01-29'') BI_MONTHLY_EVEN = Some (Inr (str ''2023-03-01'')) \<and>
   newDate (str ''2023-03-01'') = Some \<lparr>year = 2023, month = 2, dom = 1\<rparr>"
  by code_simp

end
